theory Spec2Isabelle
  imports Complex_Main "HOL-Library.AList" "HOL-Library.Multiset"
begin

section \<open>Tensors and linear maps\<close>

text \<open>
  The notebook \<^verbatim>\<open>5_hetero.ipynb\<close> works on 2-dimensional tensors. A tensor is modelled
  by its number of columns and its rows, so that a tensor without rows still has a width;
  the entries are real numbers (exact arithmetic in place of single precision floats).
\<close>

datatype tensor = Tensor (ncols: nat) (rows: "real list list")

definition shape :: "tensor \<Rightarrow> nat \<times> nat" where
  "shape x = (length (rows x), ncols x)"

definition wf_tensor :: "tensor \<Rightarrow> bool" where
  "wf_tensor x = list_all (\<lambda>r. length r = ncols x) (rows x)"

datatype error =
    KeyError string
  | ShapeMismatch
  | AmbiguousRelation string
  | UnknownRelation string
  | MissingFeature string string
  | EmptyReduction

text \<open>
  \<^verbatim>\<open>nn.Linear(in_size, out_size)\<close>: a weight matrix of \<open>out_features\<close> rows of
  \<open>in_features\<close> entries and a bias; applied to a row \<open>r\<close> it gives \<open>W r + b\<close>.
\<close>

record linear =
  in_features :: nat
  out_features :: nat
  weight_mat :: "real list list"
  bias :: "real list"

text \<open>
  The constructor allocates the weight with shape \<open>(out_size, in_size)\<close> and the bias
  with \<open>out_size\<close> entries; the values (random at first, then trained) are taken from
  the entry functions \<open>Wf\<close> and \<open>bf\<close>.
\<close>

definition Linear :: "nat \<Rightarrow> nat \<Rightarrow> (nat \<Rightarrow> nat \<Rightarrow> real) \<Rightarrow> (nat \<Rightarrow> real) \<Rightarrow> linear" where
  "Linear in_size out_size Wf bf =
     \<lparr>in_features = in_size, out_features = out_size,
      weight_mat = map (\<lambda>k. map (Wf k) [0..<in_size]) [0..<out_size],
      bias = map bf [0..<out_size]\<rparr>"

definition dot :: "real list \<Rightarrow> real list \<Rightarrow> real" where
  "dot xs ys = sum_list (map2 (*) xs ys)"

definition linear_row :: "linear \<Rightarrow> real list \<Rightarrow> real list" where
  "linear_row lin r = map2 (+) (map (dot r) (weight_mat lin)) (bias lin)"

definition linear_forward :: "linear \<Rightarrow> tensor \<Rightarrow> error + tensor" where
  "linear_forward lin x =
     (if ncols x \<noteq> in_features lin then Inl ShapeMismatch
      else Inr (Tensor (out_features lin) (map (linear_row lin) (rows x))))"

section \<open>The heterograph\<close>

type_synonym ntype = string
type_synonym etype = string
type_synonym cetype = "ntype \<times> etype \<times> ntype"

text \<open>
  The graph object \<^verbatim>\<open>G\<close>: its node types, node counts, canonical edge types and edge
  lists (the topology), and the node feature store \<^verbatim>\<open>G.nodes[ntype].data[name]\<close>.
\<close>

record hetero_graph =
  ntypes :: "ntype list"
  number_of_nodes :: "ntype \<Rightarrow> nat"
  canonical_etypes :: "cetype list"
  edges :: "cetype \<Rightarrow> (nat \<times> nat) list"
  ndata :: "ntype \<times> string \<Rightarrow> tensor option"

definition topology ::
  "hetero_graph \<Rightarrow> ntype list \<times> (ntype \<Rightarrow> nat) \<times> cetype list \<times> (cetype \<Rightarrow> (nat \<times> nat) list)" where
  "topology G = (ntypes G, number_of_nodes G, canonical_etypes G, edges G)"

definition dst_types :: "hetero_graph \<Rightarrow> ntype set" where
  "dst_types G = set (map (\<lambda>c. snd (snd c)) (canonical_etypes G))"

definition src_types :: "hetero_graph \<Rightarrow> ntype set" where
  "src_types G = set (map fst (canonical_etypes G))"

definition etypes :: "hetero_graph \<Rightarrow> etype list" where
  "etypes G = map (\<lambda>c. fst (snd c)) (canonical_etypes G)"

text \<open>
  The invariant of a heterograph: every edge of a canonical edge type joins existing nodes.
  The library establishes it when the graph is built, so the graphs a layer is given
  satisfy it.
\<close>

definition wf_graph :: "hetero_graph \<Rightarrow> bool" where
  "wf_graph G =
     list_all (\<lambda>c. list_all (\<lambda>e. fst e < number_of_nodes G (fst c) \<and>
                                  snd e < number_of_nodes G (snd (snd c))) (edges G c))
       (canonical_etypes G)"

text \<open>
  Modelled from the spec: the assignment \<^verbatim>\<open>G.nodes[t].data[name] = M\<close>, which is the graph
  library's (DGL is not part of the sources; the spec calls it \<^verbatim>\<open>set_node_feature\<close>):
  \<open>M\<close> must have one row per node of type \<open>t\<close>, and the write replaces what was stored.
\<close>

definition set_n_repr :: "hetero_graph \<Rightarrow> ntype \<Rightarrow> string \<Rightarrow> tensor \<Rightarrow> error + hetero_graph" where
  "set_n_repr G t name M =
     (if length (rows M) \<noteq> number_of_nodes G t then Inl ShapeMismatch
      else Inr (G\<lparr>ndata := (ndata G)((t, name) \<mapsto> M)\<rparr>))"

subsection \<open>Message passing\<close>

text \<open>
  The arguments that the layer hands to the library: the message function
  \<^verbatim>\<open>fn.copy_u(field, out)\<close>, the reducer \<^verbatim>\<open>fn.mean(msg, out)\<close>, and the dictionary
  \<^verbatim>\<open>funcs\<close> from relation names to such pairs, in insertion order.
\<close>

datatype message_func = copy_u string string
datatype reduce_func = fn_mean string string

type_synonym funcs = "(etype \<times> message_func \<times> reduce_func) list"

text \<open>
  Modelled from the spec: the cross reducers of the library's \<^verbatim>\<open>multi_update_all\<close> that
  keep the shape of the aggregates (\<^verbatim>\<open>stack\<close>, which adds an axis, is outside this model
  of 2-dimensional tensors; the layer never asks for it).
\<close>

datatype cross_reducer = Sum | Max | Min | Mean

text \<open>
  Modelled from the spec: the library's resolution of a relation name, as it is applied to
  the keys of \<^verbatim>\<open>funcs\<close>: the name abbreviates a canonical edge type only when it appears
  in exactly one of them.
\<close>

definition to_canonical_etype :: "hetero_graph \<Rightarrow> etype \<Rightarrow> error + cetype" where
  "to_canonical_etype G r =
     (case filter (\<lambda>c. fst (snd c) = r) (canonical_etypes G) of
        [] \<Rightarrow> Inl (UnknownRelation r)
      | [c] \<Rightarrow> Inr c
      | _ \<Rightarrow> Inl (AmbiguousRelation r))"

text \<open>
  Modelled from the spec: the library's message function \<^verbatim>\<open>copy_u\<close> (\<^verbatim>\<open>copy_src\<close> in
  the spec): the messages arriving at destination \<open>v\<close> are the rows of the source feature
  at the sources of the edges into \<open>v\<close>. By the invariant of the graph and of the feature
  store every such row exists.
\<close>

definition in_msgs :: "(nat \<times> nat) list \<Rightarrow> tensor \<Rightarrow> nat \<Rightarrow> real list list" where
  "in_msgs es x v = map (\<lambda>e. rows x ! fst e) (filter (\<lambda>e. snd e = v) es)"

text \<open>
  Modelled from the spec: the library's reducer \<^verbatim>\<open>fn.mean\<close>: the arithmetic mean of the
  messages, \<^verbatim>\<open>sum / max(count, 1)\<close>; a destination without messages receives the zero
  vector.
\<close>

definition mean_reduce :: "nat \<Rightarrow> real list list \<Rightarrow> real list" where
  "mean_reduce w msgs =
     (if msgs = [] then replicate w 0
      else map (\<lambda>j. sum_list (map (\<lambda>m. m ! j) msgs) / real (length msgs)) [0..<w])"

text \<open>
  Modelled from the spec: step 1 of the library's \<^verbatim>\<open>multi_update_all\<close> for one relation:
  the per-destination aggregate \<open>A\<close> for every \<open>v\<close> below the destination type's node
  count; a missing source feature fails.
\<close>

fun update_rel :: "hetero_graph \<Rightarrow> cetype \<Rightarrow> message_func \<times> reduce_func \<Rightarrow> error + tensor" where
  "update_rel G (s, r, d) (copy_u src_name m, fn_mean m' out_name) =
     (case ndata G (s, src_name) of
        None \<Rightarrow> Inl (MissingFeature s src_name)
      | Some x \<Rightarrow>
          Inr (Tensor (ncols x)
                 (map (\<lambda>v. mean_reduce (ncols x) (in_msgs (edges G (s, r, d)) x v))
                    [0..<number_of_nodes G d])))"

text \<open>The destination feature that a pair of \<^verbatim>\<open>funcs\<close> names.\<close>

fun out_field :: "message_func \<times> reduce_func \<Rightarrow> string" where
  "out_field (mf, fn_mean m out_name) = out_name"

text \<open>
  Modelled from the spec: steps 1 and 2 of the library's \<^verbatim>\<open>multi_update_all\<close>, in the
  order of \<^verbatim>\<open>funcs\<close>: every key is resolved, its aggregate computed, and the result filed
  under the destination type and the destination feature name.
\<close>

fun apply_funcs :: "hetero_graph \<Rightarrow> funcs \<Rightarrow> error + ((ntype \<times> string) \<times> tensor) list" where
  "apply_funcs G [] = Inr []"
| "apply_funcs G ((r, f) # fs) =
     (case to_canonical_etype G r of
        Inl e \<Rightarrow> Inl e
      | Inr c \<Rightarrow>
          (case update_rel G c f of
             Inl e \<Rightarrow> Inl e
           | Inr A \<Rightarrow>
               (case apply_funcs G fs of
                  Inl e \<Rightarrow> Inl e
                | Inr out \<Rightarrow> Inr (((snd (snd c), out_field f), A) # out))))"

text \<open>
  Modelled from the spec: the element-wise combination of two aggregates in the library's
  cross reducers; aggregates of different shapes do not combine (\<^verbatim>\<open>ShapeMismatch\<close>).
\<close>

definition zip_tensor :: "(real \<Rightarrow> real \<Rightarrow> real) \<Rightarrow> tensor \<Rightarrow> tensor \<Rightarrow> error + tensor" where
  "zip_tensor f a b =
     (if shape a \<noteq> shape b then Inl ShapeMismatch
      else Inr (Tensor (ncols a) (map2 (map2 f) (rows a) (rows b))))"

text \<open>
  Modelled from the spec: the combination of all the aggregates that reached one
  destination key, in the library's cross reducers.
\<close>

fun fold_tensors :: "(real \<Rightarrow> real \<Rightarrow> real) \<Rightarrow> tensor list \<Rightarrow> error + tensor" where
  "fold_tensors f [] = Inl EmptyReduction"
| "fold_tensors f [a] = Inr a"
| "fold_tensors f (a # b # ts) =
     (case fold_tensors f (b # ts) of
        Inl e \<Rightarrow> Inl e
      | Inr acc \<Rightarrow> zip_tensor f a acc)"

text \<open>Modelled from the spec: the division in the library's cross reducer \<^verbatim>\<open>mean\<close>.\<close>

definition scale_tensor :: "real \<Rightarrow> tensor \<Rightarrow> tensor" where
  "scale_tensor k a = Tensor (ncols a) (map (map (\<lambda>x. x / k)) (rows a))"

text \<open>
  Modelled from the spec: step 2 of the library's \<^verbatim>\<open>multi_update_all\<close>: \<^verbatim>\<open>sum\<close>,
  \<^verbatim>\<open>max\<close> and \<^verbatim>\<open>min\<close> combine element-wise, \<^verbatim>\<open>mean\<close> divides the sum by the number
  of relations.
\<close>

fun cross_reduce :: "cross_reducer \<Rightarrow> tensor list \<Rightarrow> error + tensor" where
  "cross_reduce Sum ts = fold_tensors (+) ts"
| "cross_reduce Max ts = fold_tensors max ts"
| "cross_reduce Min ts = fold_tensors min ts"
| "cross_reduce Mean ts =
     (case fold_tensors (+) ts of
        Inl e \<Rightarrow> Inl e
      | Inr a \<Rightarrow> Inr (scale_tensor (real (length ts)) a))"

text \<open>
  Modelled from the spec: steps 3 and 4 of the library's \<^verbatim>\<open>multi_update_all\<close>: for every
  destination key that received an aggregate, the combined tensor replaces the stored
  feature; nothing else is touched.
\<close>

fun write_all ::
  "cross_reducer \<Rightarrow> ((ntype \<times> string) \<times> tensor) list \<Rightarrow> (ntype \<times> string) list \<Rightarrow>
     hetero_graph \<Rightarrow> error + hetero_graph" where
  "write_all cr out [] G = Inr G"
| "write_all cr out (k # ks) G =
     (case cross_reduce cr (map snd (filter (\<lambda>p. fst p = k) out)) of
        Inl e \<Rightarrow> Inl e
      | Inr T \<Rightarrow> write_all cr out ks (G\<lparr>ndata := (ndata G)(k \<mapsto> T)\<rparr>))"

text \<open>
  Modelled from the spec: \<^verbatim>\<open>G.multi_update_all(funcs, cross_reducer)\<close> of the graph
  library, steps 1 to 4 together.
\<close>

definition multi_update_all :: "hetero_graph \<Rightarrow> funcs \<Rightarrow> cross_reducer \<Rightarrow> error + hetero_graph" where
  "multi_update_all G fs cr =
     (case apply_funcs G fs of
        Inl e \<Rightarrow> Inl e
      | Inr out \<Rightarrow> write_all cr out (remdups (map fst out)) G)"

section \<open>HeteroRGCNLayer\<close>

text \<open>
  \<^verbatim>\<open>self.weight\<close>: one \<^verbatim>\<open>nn.Linear(in_size, out_size)\<close> for each name in \<^verbatim>\<open>etypes\<close>.
  The values of the linear maps are a parameter \<open>init\<close>.
\<close>

record layer =
  weight :: "etype \<Rightarrow> linear option"

type_synonym linear_init = "etype \<Rightarrow> (nat \<Rightarrow> nat \<Rightarrow> real) \<times> (nat \<Rightarrow> real)"

definition HeteroRGCNLayer :: "nat \<Rightarrow> nat \<Rightarrow> etype list \<Rightarrow> linear_init \<Rightarrow> layer" where
  "HeteroRGCNLayer in_size out_size names init =
     \<lparr>weight = map_of (map (\<lambda>name. (name,
         Linear in_size out_size (fst (init name)) (snd (init name)))) names)\<rparr>"

text \<open>The scratch feature name \<^verbatim>\<open>'Wh_%s' % etype\<close>.\<close>

definition Wh_name :: "etype \<Rightarrow> string" where
  "Wh_name etype = ''Wh_'' @ etype"

text \<open>The slot of the feature store that the loop writes for a canonical edge type.\<close>

definition Wh_slot :: "cetype \<Rightarrow> ntype \<times> string" where
  "Wh_slot c = (fst c, Wh_name (fst (snd c)))"

text \<open>\<^verbatim>\<open>Wh = self.weight[etype](feat_dict[srctype])\<close>\<close>

definition compute_Wh :: "layer \<Rightarrow> (ntype \<Rightarrow> tensor option) \<Rightarrow> cetype \<Rightarrow> error + tensor" where
  "compute_Wh L feat_dict c =
     (case weight L (fst (snd c)) of
        None \<Rightarrow> Inl (KeyError (fst (snd c)))
      | Some lin \<Rightarrow>
          (case feat_dict (fst c) of
             None \<Rightarrow> Inl (KeyError (fst c))
           | Some x \<Rightarrow> linear_forward lin x))"

text \<open>The \<^verbatim>\<open>for\<close> loop of \<^verbatim>\<open>forward\<close> over \<^verbatim>\<open>G.canonical_etypes\<close>.\<close>

fun forward_loop ::
  "layer \<Rightarrow> (ntype \<Rightarrow> tensor option) \<Rightarrow> cetype list \<Rightarrow> hetero_graph \<Rightarrow> funcs \<Rightarrow>
     error + (hetero_graph \<times> funcs)" where
  "forward_loop L feat_dict [] G fs = Inr (G, fs)"
| "forward_loop L feat_dict (c # cs) G fs =
     (case compute_Wh L feat_dict c of
        Inl e \<Rightarrow> Inl e
      | Inr Wh \<Rightarrow>
          (case set_n_repr G (fst c) (Wh_name (fst (snd c))) Wh of
             Inl e \<Rightarrow> Inl e
           | Inr G' \<Rightarrow>
               forward_loop L feat_dict cs G'
                 (AList.update (fst (snd c))
                    (copy_u (Wh_name (fst (snd c))) ''m'', fn_mean ''m'' ''h'') fs)))"

text \<open>The returned dictionary \<^verbatim>\<open>{ntype : G.nodes[ntype].data['h'] for ntype in G.ntypes}\<close>.\<close>

fun collect_h :: "hetero_graph \<Rightarrow> ntype list \<Rightarrow> error + (ntype \<times> tensor) list" where
  "collect_h G [] = Inr []"
| "collect_h G (t # ts) =
     (case ndata G (t, ''h'') of
        None \<Rightarrow> Inl (KeyError ''h'')
      | Some h \<Rightarrow>
          (case collect_h G ts of
             Inl e \<Rightarrow> Inl e
           | Inr out \<Rightarrow> Inr ((t, h) # out)))"

text \<open>The body of \<^verbatim>\<open>forward\<close> up to the call of \<^verbatim>\<open>multi_update_all\<close>.\<close>

definition propagate ::
  "layer \<Rightarrow> hetero_graph \<Rightarrow> (ntype \<Rightarrow> tensor option) \<Rightarrow> error + hetero_graph" where
  "propagate L G feat_dict =
     (case forward_loop L feat_dict (canonical_etypes G) G [] of
        Inl e \<Rightarrow> Inl e
      | Inr (G1, fs) \<Rightarrow> multi_update_all G1 fs Sum)"

definition forward ::
  "layer \<Rightarrow> hetero_graph \<Rightarrow> (ntype \<Rightarrow> tensor option) \<Rightarrow>
     error + (hetero_graph \<times> (ntype \<times> tensor) list)" where
  "forward L G feat_dict =
     (case propagate L G feat_dict of
        Inl e \<Rightarrow> Inl e
      | Inr G2 \<Rightarrow>
          (case collect_h G2 (ntypes G2) of
             Inl e \<Rightarrow> Inl e
           | Inr out \<Rightarrow> Inr (G2, out)))"

section \<open>HeteroRGCN\<close>

text \<open>
  The model: one trainable embedding of shape \<open>(number_of_nodes ntype, in_size)\<close> for each
  node type (its values are the entry function \<open>E\<close>), and two layers over \<^verbatim>\<open>G.etypes\<close>.
\<close>

record hetero_rgcn =
  embed :: "ntype \<Rightarrow> tensor option"
  layer1 :: layer
  layer2 :: layer

definition Parameter :: "nat \<Rightarrow> nat \<Rightarrow> (nat \<Rightarrow> nat \<Rightarrow> real) \<Rightarrow> tensor" where
  "Parameter n w Ef = Tensor w (map (\<lambda>i. map (Ef i) [0..<w]) [0..<n])"

definition HeteroRGCN ::
  "hetero_graph \<Rightarrow> nat \<Rightarrow> nat \<Rightarrow> nat \<Rightarrow> (ntype \<Rightarrow> nat \<Rightarrow> nat \<Rightarrow> real) \<Rightarrow> linear_init \<Rightarrow> linear_init \<Rightarrow>
     hetero_rgcn" where
  "HeteroRGCN G in_size hidden_size out_size E init1 init2 =
     \<lparr>embed = map_of (map (\<lambda>t. (t, Parameter (number_of_nodes G t) in_size (E t))) (ntypes G)),
      layer1 = HeteroRGCNLayer in_size hidden_size (etypes G) init1,
      layer2 = HeteroRGCNLayer hidden_size out_size (etypes G) init2\<rparr>"

text \<open>\<^verbatim>\<open>F.leaky_relu(h)\<close> with the default negative slope 0.01, entry by entry.\<close>

definition leaky_relu :: "real \<Rightarrow> real" where
  "leaky_relu x = max 0 x + 0.01 * min 0 x"

definition map_tensor :: "(real \<Rightarrow> real) \<Rightarrow> tensor \<Rightarrow> tensor" where
  "map_tensor f x = Tensor (ncols x) (map (map f) (rows x))"

definition activate :: "(ntype \<times> tensor) list \<Rightarrow> (ntype \<times> tensor) list" where
  "activate h_dict = map (\<lambda>p. (fst p, map_tensor leaky_relu (snd p))) h_dict"

definition HeteroRGCN_forward :: "hetero_rgcn \<Rightarrow> hetero_graph \<Rightarrow> error + (hetero_graph \<times> tensor)" where
  "HeteroRGCN_forward M G =
     (case forward (layer1 M) G (embed M) of
        Inl e \<Rightarrow> Inl e
      | Inr (G1, h_dict) \<Rightarrow>
          (case forward (layer2 M) G1 (map_of (activate h_dict)) of
             Inl e \<Rightarrow> Inl e
           | Inr (G2, h_dict2) \<Rightarrow>
               (case map_of h_dict2 ''paper'' of
                  None \<Rightarrow> Inl (KeyError ''paper'')
                | Some logits \<Rightarrow> Inr (G2, logits))))"

section \<open>Label generation\<close>

text \<open>
  The integer arrays of the cell live in a store, so that two names for one array can be
  told from two arrays. A CSR matrix (of the sparse matrix library) names its
  \<^verbatim>\<open>indptr\<close> and \<^verbatim>\<open>indices\<close> arrays by address; the stored values play no role in the
  cell. The columns of the stored entries of row \<open>i\<close> are the slice of \<^verbatim>\<open>indices\<close> from
  \<^verbatim>\<open>indptr[i]\<close> to \<^verbatim>\<open>indptr[i+1]\<close>.
\<close>

type_synonym addr = nat
type_synonym store = "addr \<Rightarrow> nat list"

record csr_matrix =
  n_rows :: nat
  n_cols :: nat
  indptr :: addr
  indices :: addr

definition cols_of_row :: "nat list \<Rightarrow> nat list \<Rightarrow> nat \<Rightarrow> nat list" where
  "cols_of_row ptr idx i = take (ptr ! Suc i - ptr ! i) (drop (ptr ! i) idx)"

text \<open>The matrix that the arrays represent, as the list of its stored (row, column) pairs.\<close>

definition csr_entries :: "store \<Rightarrow> csr_matrix \<Rightarrow> (nat \<times> nat) list" where
  "csr_entries h M =
     concat (map (\<lambda>i. map (Pair i) (cols_of_row (h (indptr M)) (h (indices M)) i)) [0..<n_rows M])"

text \<open>The layout invariant of a CSR matrix, with \<^verbatim>\<open>indptr\<close> and \<^verbatim>\<open>indices\<close> two arrays.\<close>

definition wf_csr :: "store \<Rightarrow> csr_matrix \<Rightarrow> bool" where
  "wf_csr h M =
     (indptr M \<noteq> indices M \<and>
      length (h (indptr M)) = Suc (n_rows M) \<and>
      h (indptr M) ! 0 = 0 \<and>
      sorted (h (indptr M)) \<and>
      h (indptr M) ! n_rows M = length (h (indices M)) \<and>
      list_all (\<lambda>c. c < n_cols M) (h (indices M)))"

definition c_selected :: "nat list" where
  "c_selected = [0, 11, 13]"

text \<open>
  \<^verbatim>\<open>pvc[:, c_selected].tocoo().row\<close>: the row of every stored entry whose column is
  selected, row by row.
\<close>

definition selected_rows :: "store \<Rightarrow> csr_matrix \<Rightarrow> nat list \<Rightarrow> nat list" where
  "selected_rows h M cs =
     map fst (filter (\<lambda>e. snd e \<in> set cs) (csr_entries h M))"

text \<open>\<^verbatim>\<open>a[a == old] = new\<close>, in place on the array at address \<open>a\<close>.\<close>

definition masked_assign :: "store \<Rightarrow> addr \<Rightarrow> nat \<Rightarrow> nat \<Rightarrow> store" where
  "masked_assign h a old new = h(a := map (\<lambda>x. if x = old then new else x) (h a))"

text \<open>
  The state after the label lines of the cell: the store, the array that the name
  \<^verbatim>\<open>labels\<close> was bound to while it was written, the tensor copied from it by
  \<^verbatim>\<open>torch.tensor\<close>, and \<^verbatim>\<open>pid\<close>.
\<close>

record label_state =
  heap :: store
  labels_array :: addr
  labels :: "nat list"
  pid :: "nat list"

definition generate_labels :: "store \<Rightarrow> csr_matrix \<Rightarrow> label_state" where
  "generate_labels h pvc =
     (let p_selected = selected_rows h pvc c_selected;
          a = indices pvc;
          h1 = masked_assign h a 11 1;
          h2 = masked_assign h1 a 13 2
      in \<lparr>heap = h2, labels_array = a, labels = h2 a, pid = p_selected\<rparr>)"

text \<open>
  The splits of a permutation \<^verbatim>\<open>shuffle\<close> of \<^verbatim>\<open>pid\<close>:
  \<^verbatim>\<open>shuffle[0:800]\<close>, \<^verbatim>\<open>shuffle[800:900]\<close>, \<^verbatim>\<open>shuffle[900:]\<close>.
\<close>

definition train_idx :: "nat list \<Rightarrow> nat list" where
  "train_idx shuffle = take 800 shuffle"

definition val_idx :: "nat list \<Rightarrow> nat list" where
  "val_idx shuffle = take 100 (drop 800 shuffle)"

definition test_idx :: "nat list \<Rightarrow> nat list" where
  "test_idx shuffle = drop 900 shuffle"

datatype index_error = IndexError

text \<open>\<^verbatim>\<open>labels[i]\<close> on the tensor: an index past the end raises.\<close>

definition label_at :: "nat list \<Rightarrow> nat \<Rightarrow> index_error + nat" where
  "label_at ls i = (if i < length ls then Inr (ls ! i) else Inl IndexError)"

text \<open>
  The class of a conference, in the words of the cell's comment on \<^verbatim>\<open>c_selected\<close>
  (KDD, ICML, VLDB): its position in \<^verbatim>\<open>c_selected\<close>.
\<close>

definition class_id :: "nat \<Rightarrow> nat option" where
  "class_id c = (if c = 0 then Some 0 else if c = 11 then Some 1 else if c = 13 then Some 2 else None)"

section \<open>Scenarios\<close>

text \<open>Identity weights and zero bias for every relation.\<close>

definition identity_init :: linear_init where
  "identity_init = (\<lambda>r. (\<lambda>k j. if k = j then 1 else 0, \<lambda>k. 0))"

text \<open>
  The user-movie graph \<^verbatim>\<open>ratings\<close> of the notebook (scenario S1), with the features of
  the scenario on the users.
\<close>

definition ratings :: hetero_graph where
  "ratings =
     \<lparr>ntypes = [''movie'', ''user''],
      number_of_nodes = (\<lambda>t. if t = ''user'' then 3 else if t = ''movie'' then 2 else 0),
      canonical_etypes = [(''user'', ''+1'', ''movie''), (''user'', ''-1'', ''movie'')],
      edges = (\<lambda>c. if c = (''user'', ''+1'', ''movie'') then [(0, 0), (0, 1), (1, 0)]
                   else if c = (''user'', ''-1'', ''movie'') then [(2, 1)] else []),
      ndata = (\<lambda>k. None)\<rparr>"

definition feat_S1 :: "ntype \<Rightarrow> tensor option" where
  "feat_S1 = [''user'' \<mapsto> Tensor 2 [[1, 0], [0, 1], [1, 1]]]"

text \<open>
  Three papers and one citation from paper 0 to paper 1 (scenario S2); the feature
  dictionary also carries an entry, with the value \<open>a\<close>, for a type the graph does not use.
\<close>

definition citing_graph :: hetero_graph where
  "citing_graph =
     \<lparr>ntypes = [''paper''],
      number_of_nodes = (\<lambda>t. if t = ''paper'' then 3 else 0),
      canonical_etypes = [(''paper'', ''citing'', ''paper'')],
      edges = (\<lambda>c. if c = (''paper'', ''citing'', ''paper'') then [(0, 1)] else []),
      ndata = (\<lambda>k. None)\<rparr>"

definition feat_S2 :: "real \<Rightarrow> ntype \<Rightarrow> tensor option" where
  "feat_S2 a = [''paper'' \<mapsto> Tensor 1 [[1], [2], [3]], ''author'' \<mapsto> Tensor 1 [[a]]]"

text \<open>
  The graph \<^verbatim>\<open>ratings\<close> with a feature \<^verbatim>\<open>h\<close> already stored on the users, as an
  earlier write would leave it.
\<close>

definition ratings_stale :: hetero_graph where
  "ratings_stale = ratings\<lparr>ndata := [(''user'', ''h'') \<mapsto> Tensor 1 [[9], [9], [9]]]\<rparr>"

text \<open>
  The state of \<^verbatim>\<open>ratings\<close> when the layer with identity weights calls
  \<^verbatim>\<open>multi_update_all\<close>, and the \<^verbatim>\<open>funcs\<close> of that call.
\<close>

definition ratings_loaded :: hetero_graph where
  "ratings_loaded =
     ratings\<lparr>ndata := [(''user'', ''Wh_+1'') \<mapsto> Tensor 2 [[1, 0], [0, 1], [1, 1]],
                       (''user'', ''Wh_-1'') \<mapsto> Tensor 2 [[1, 0], [0, 1], [1, 1]]]\<rparr>"

definition funcs_S1 :: funcs where
  "funcs_S1 = [(''+1'', copy_u ''Wh_+1'' ''m'', fn_mean ''m'' ''h''),
               (''-1'', copy_u ''Wh_-1'' ''m'', fn_mean ''m'' ''h'')]"

text \<open>The citation graph with the transformed feature of the scenario in place.\<close>

definition citing_loaded :: hetero_graph where
  "citing_loaded =
     citing_graph\<lparr>ndata := [(''paper'', ''Wh_citing'') \<mapsto> Tensor 1 [[1], [2], [3]]]\<rparr>"

text \<open>
  A small graph with the shape of the notebook's ACM graph: every node type is
  the destination of a relation.
\<close>

definition acm_small :: hetero_graph where
  "acm_small =
     \<lparr>ntypes = [''author'', ''paper''],
      number_of_nodes = (\<lambda>t. if t = ''paper'' then 2 else if t = ''author'' then 1 else 0),
      canonical_etypes = [(''paper'', ''written-by'', ''author''), (''author'', ''writing'', ''paper''),
                          (''paper'', ''citing'', ''paper'')],
      edges = (\<lambda>c. if c = (''paper'', ''written-by'', ''author'') then [(0, 0), (1, 0)]
                   else if c = (''author'', ''writing'', ''paper'') then [(0, 0), (0, 1)]
                   else if c = (''paper'', ''citing'', ''paper'') then [(0, 1)] else []),
      ndata = (\<lambda>k. None)\<rparr>"

definition feat_acm :: "ntype \<Rightarrow> tensor option" where
  "feat_acm = [''paper'' \<mapsto> Tensor 1 [[1], [2]], ''author'' \<mapsto> Tensor 1 [[3]]]"

text \<open>
  A graph in which one relation name is shared: by two canonical edge types with the same
  source type, and by a third with another source type.
\<close>

definition reviews :: hetero_graph where
  "reviews =
     \<lparr>ntypes = [''book'', ''critic'', ''movie'', ''user''],
      number_of_nodes = (\<lambda>t. if t = ''user'' then 2 else if t = ''critic'' then 1
                             else if t = ''movie'' then 2 else if t = ''book'' then 1 else 0),
      canonical_etypes = [(''user'', ''rates'', ''movie''), (''user'', ''rates'', ''book''),
                          (''critic'', ''rates'', ''movie'')],
      edges = (\<lambda>c. if c = (''user'', ''rates'', ''movie'') then [(0, 0), (1, 1)]
                   else if c = (''user'', ''rates'', ''book'') then [(1, 0)]
                   else if c = (''critic'', ''rates'', ''movie'') then [(0, 0)] else []),
      ndata = (\<lambda>k. None)\<rparr>"

definition feat_reviews :: "ntype \<Rightarrow> tensor option" where
  "feat_reviews = [''user'' \<mapsto> Tensor 1 [[1], [2]], ''critic'' \<mapsto> Tensor 1 [[3]]]"

text \<open>
  A graph in which the papers are a source type only, with a feature \<^verbatim>\<open>h\<close> of width 1
  already stored on them.
\<close>

definition authorship_stale :: hetero_graph where
  "authorship_stale =
     \<lparr>ntypes = [''author'', ''paper''],
      number_of_nodes = (\<lambda>t. if t = ''paper'' then 2 else if t = ''author'' then 1 else 0),
      canonical_etypes = [(''paper'', ''written-by'', ''author'')],
      edges = (\<lambda>c. if c = (''paper'', ''written-by'', ''author'') then [(0, 0), (1, 0)] else []),
      ndata = [(''paper'', ''h'') \<mapsto> Tensor 1 [[9], [9]]]\<rparr>"

text \<open>Values for the embeddings and the linear maps of the small graphs.\<close>

definition embed_init :: "ntype \<Rightarrow> nat \<Rightarrow> nat \<Rightarrow> real" where
  "embed_init = (\<lambda>t i j. real (i + 1))"

definition double_init :: linear_init where
  "double_init = (\<lambda>r. (\<lambda>k j. 2, \<lambda>k. 1))"

definition negate_init :: linear_init where
  "negate_init = (\<lambda>r. (\<lambda>k j. - 1, \<lambda>k. 0))"

text \<open>
  Stores with a paper-conference matrix: at address 0 its \<^verbatim>\<open>indptr\<close>, at address 1 its
  \<^verbatim>\<open>indices\<close>. In the first every paper has one conference (13, 5, 0 and 11); in the
  second paper 0 has none, paper 1 has conference 13 and paper 2 conference 0.
\<close>

definition pvc_matrix :: "nat \<Rightarrow> csr_matrix" where
  "pvc_matrix n = \<lparr>n_rows = n, n_cols = 14, indptr = 0, indices = 1\<rparr>"

definition store_one :: store where
  "store_one = (\<lambda>a. if a = 0 then [0, 1, 2, 3, 4] else if a = 1 then [13, 5, 0, 11] else [])"

definition store_gap :: store where
  "store_gap = (\<lambda>a. if a = 0 then [0, 0, 1, 2] else if a = 1 then [13, 0] else [])"

text \<open>
  A store with a well-formed matrix of two papers, of conferences 0 and 5: no paper of
  conference 11 or 13.
\<close>

definition store_kdd :: store where
  "store_kdd = (\<lambda>a. if a = 0 then [0, 1, 2] else if a = 1 then [0, 5] else [])"

section \<open>The loop of the layer\<close>

lemma Wh_name_inj: "Wh_name r = Wh_name r' \<longleftrightarrow> r = r'"
  by (simp add: Wh_name_def)

lemma Wh_name_not_h: "Wh_name r \<noteq> ''h''"
  by (simp add: Wh_name_def)

lemma Wh_slot_compute:
  "Wh_slot c = Wh_slot c' \<Longrightarrow> compute_Wh L feat c = compute_Wh L feat c'"
  by (auto simp: Wh_slot_def compute_Wh_def Wh_name_inj split: option.splits)

lemma set_n_repr_Inr:
  "set_n_repr G t name M = Inr G' \<Longrightarrow>
     G' = G\<lparr>ndata := (ndata G)((t, name) \<mapsto> M)\<rparr> \<and> length (rows M) = number_of_nodes G t"
  by (auto simp: set_n_repr_def split: if_splits)

lemma forward_loop_topology:
  "forward_loop L feat cs G fs = Inr (G', fs') \<Longrightarrow> topology G' = topology G"
proof (induction cs arbitrary: G fs)
  case Nil
  then show ?case by simp
next
  case (Cons c cs)
  then show ?case
    by (auto split: sum.splits dest!: set_n_repr_Inr simp: topology_def)
qed

lemma forward_loop_frame:
  "forward_loop L feat cs G fs = Inr (G', fs') \<Longrightarrow> k \<notin> Wh_slot ` set cs \<Longrightarrow>
     ndata G' k = ndata G k"
proof (induction cs arbitrary: G fs)
  case Nil
  then show ?case by simp
next
  case (Cons c cs)
  then show ?case
    by (auto split: sum.splits dest!: set_n_repr_Inr simp: Wh_slot_def)
qed

text \<open>
  After the loop every canonical edge type finds its own \<open>Wh\<close> in its slot: a later
  write to the same slot comes from the same relation name and source type, and stores
  the same tensor.
\<close>

lemma forward_loop_stored:
  "forward_loop L feat cs G fs = Inr (G', fs') \<Longrightarrow> c \<in> set cs \<Longrightarrow>
     \<exists>Wh. compute_Wh L feat c = Inr Wh \<and> ndata G' (Wh_slot c) = Some Wh \<and>
          length (rows Wh) = number_of_nodes G (fst c)"
proof (induction cs arbitrary: G fs c)
  case Nil
  then show ?case by simp
next
  case (Cons c0 cs)
  from Cons.prems(1) obtain Wh0 G0 where
    w0: "compute_Wh L feat c0 = Inr Wh0" and
    s0: "set_n_repr G (fst c0) (Wh_name (fst (snd c0))) Wh0 = Inr G0" and
    rest: "forward_loop L feat cs G0
             (AList.update (fst (snd c0)) (copy_u (Wh_name (fst (snd c0))) ''m'', fn_mean ''m'' ''h'') fs)
           = Inr (G', fs')"
    by (auto split: sum.splits)
  from s0 have G0: "G0 = G\<lparr>ndata := (ndata G)(Wh_slot c0 \<mapsto> Wh0)\<rparr>"
    and len0: "length (rows Wh0) = number_of_nodes G (fst c0)"
    by (auto dest!: set_n_repr_Inr simp: Wh_slot_def)
  show ?case
  proof (cases "c \<in> set cs")
    case True
    from Cons.IH[OF rest True] G0 show ?thesis by simp
  next
    case False
    with Cons.prems(2) have c: "c = c0" by simp
    show ?thesis
    proof (cases "Wh_slot c0 \<in> Wh_slot ` set cs")
      case True
      then obtain c1 where c1: "c1 \<in> set cs" "Wh_slot c1 = Wh_slot c0" by auto
      from Cons.IH[OF rest c1(1)] obtain Wh1 where
        "compute_Wh L feat c1 = Inr Wh1" "ndata G' (Wh_slot c1) = Some Wh1" by blast
      with Wh_slot_compute[OF c1(2), of L feat] w0 c1(2) len0 c show ?thesis by simp
    next
      case False
      from forward_loop_frame[OF rest False] G0 w0 len0 c show ?thesis by simp
    qed
  qed
qed

lemma compute_Wh_cong:
  "feat1 (fst c) = feat2 (fst c) \<Longrightarrow> compute_Wh L feat1 c = compute_Wh L feat2 c"
  by (simp add: compute_Wh_def split: option.splits)

lemma forward_loop_cong:
  "(\<And>c. c \<in> set cs \<Longrightarrow> feat1 (fst c) = feat2 (fst c)) \<Longrightarrow>
     forward_loop L feat1 cs G fs = forward_loop L feat2 cs G fs"
proof (induction cs arbitrary: G fs)
  case Nil
  then show ?case by simp
next
  case (Cons c cs)
  have "compute_Wh L feat1 c = compute_Wh L feat2 c"
    by (rule compute_Wh_cong) (simp add: Cons.prems)
  moreover have "\<And>G fs. forward_loop L feat1 cs G fs = forward_loop L feat2 cs G fs"
    by (rule Cons.IH) (simp add: Cons.prems)
  ultimately show ?case by (simp split: sum.splits)
qed

section \<open>Message passing\<close>

text \<open>
  On a graph that satisfies its invariant, with a source feature of one row per source
  node, every message is a row of the source feature.
\<close>

lemma in_msgs_in_range:
  assumes "wf_graph G" and "c \<in> set (canonical_etypes G)"
    and "length (rows x) = number_of_nodes G (fst c)"
  shows "set (in_msgs (edges G c) x v) \<subseteq> set (rows x)"
proof -
  from assms(1,2) have "\<forall>e\<in>set (edges G c). fst e < number_of_nodes G (fst c)"
    by (auto simp: wf_graph_def list_all_iff)
  with assms(3) show ?thesis by (auto simp: in_msgs_def)
qed

lemma to_canonical_etype_Inr:
  "to_canonical_etype G r = Inr c \<Longrightarrow>
     filter (\<lambda>c'. fst (snd c') = r) (canonical_etypes G) = [c]"
  by (auto simp: to_canonical_etype_def split: list.splits)

lemma to_canonical_etype_mem:
  assumes "to_canonical_etype G r = Inr c"
  shows "c \<in> set (canonical_etypes G)" and "fst (snd c) = r"
proof -
  from to_canonical_etype_Inr[OF assms]
  have "c \<in> set (filter (\<lambda>c'. fst (snd c') = r) (canonical_etypes G))" by simp
  then show "c \<in> set (canonical_etypes G)" and "fst (snd c) = r" by auto
qed

lemma to_canonical_etype_unique:
  assumes "to_canonical_etype G r = Inr c" and "c' \<in> set (canonical_etypes G)" and "fst (snd c') = r"
  shows "c' = c"
proof -
  from assms(2,3) have "c' \<in> set (filter (\<lambda>c'. fst (snd c') = r) (canonical_etypes G))" by simp
  with to_canonical_etype_Inr[OF assms(1)] show ?thesis by simp
qed

lemma filter_distinct_map:
  "distinct (map f xs) \<Longrightarrow> x \<in> set xs \<Longrightarrow> filter (\<lambda>y. f y = f x) xs = [x]"
proof (induction xs)
  case Nil
  then show ?case by simp
next
  case (Cons a xs)
  show ?case
  proof (cases "a = x")
    case True
    with Cons.prems(1) have "filter (\<lambda>y. f y = f x) xs = []"
      by (auto simp: filter_empty_conv image_iff)
    with True show ?thesis by simp
  next
    case False
    with Cons show ?thesis by (auto simp: image_iff)
  qed
qed

lemma to_canonical_etype_distinct:
  "distinct (etypes G) \<Longrightarrow> c \<in> set (canonical_etypes G) \<Longrightarrow>
     to_canonical_etype G (fst (snd c)) = Inr c"
  using filter_distinct_map[of "\<lambda>c. fst (snd c)" "canonical_etypes G" c]
  by (simp add: to_canonical_etype_def etypes_def)

lemma update_rel_Inr:
  assumes "update_rel G c (copy_u src m, fn_mean m' dst) = Inr A"
  shows "\<exists>x. ndata G (fst c, src) = Some x \<and> ncols A = ncols x \<and>
             A = Tensor (ncols x)
                   (map (\<lambda>v. mean_reduce (ncols x) (in_msgs (edges G c) x v))
                      [0..<number_of_nodes G (snd (snd c))])"
  using assms by (cases c) (auto split: option.splits)

lemma length_mean_reduce: "length (mean_reduce w msgs) = w"
  by (simp add: mean_reduce_def)

lemma update_rel_shape:
  assumes "update_rel G c (copy_u src m, fn_mean m' dst) = Inr A"
  shows "length (rows A) = number_of_nodes G (snd (snd c))" and "wf_tensor A"
  using update_rel_Inr[OF assms]
  by (auto simp: wf_tensor_def list_all_iff length_mean_reduce)

lemma apply_funcs_rel:
  "apply_funcs G fs = Inr out \<Longrightarrow>
     list_all2 (\<lambda>p q. \<exists>c. to_canonical_etype G (fst p) = Inr c \<and>
                        update_rel G c (snd p) = Inr (snd q) \<and>
                        fst q = (snd (snd c), out_field (snd p))) fs out"
proof (induction fs arbitrary: out)
  case Nil
  then show ?case by simp
next
  case (Cons p fs)
  obtain r f where p: "p = (r, f)" by (cases p)
  from Cons.prems p obtain c A out' where
    "to_canonical_etype G r = Inr c" "update_rel G c f = Inr A"
    "apply_funcs G fs = Inr out'" "out = ((snd (snd c), out_field f), A) # out'"
    by (auto split: sum.splits)
  with Cons.IH[of out'] p show ?case by (auto simp del: split_paired_Ex)
qed

lemma apply_funcs_total:
  "(\<And>p. p \<in> set fs \<Longrightarrow> \<exists>c A. to_canonical_etype G (fst p) = Inr c \<and> update_rel G c (snd p) = Inr A)
     \<Longrightarrow> \<exists>out. apply_funcs G fs = Inr out"
proof (induction fs)
  case Nil
  then show ?case by simp
next
  case (Cons p fs)
  obtain r f where p: "p = (r, f)" by (cases p)
  from Cons.prems[of p] p obtain c A where
    "to_canonical_etype G r = Inr c" "update_rel G c f = Inr A" by auto
  moreover from Cons.IH Cons.prems obtain out where "apply_funcs G fs = Inr out" by auto
  ultimately show ?case using p by simp
qed

lemma shape_zip_tensor:
  "zip_tensor f a b = Inr T \<Longrightarrow> shape a = shape b \<and> shape T = shape a"
  by (auto simp: zip_tensor_def shape_def split: if_splits)

lemma fold_tensors_Inr:
  "fold_tensors f ts = Inr T \<Longrightarrow> ts \<noteq> [] \<and> (\<forall>t\<in>set ts. shape t = shape T)"
proof (induction f ts arbitrary: T rule: fold_tensors.induct)
  case (1 f)
  then show ?case by simp
next
  case (2 f a)
  then show ?case by simp
next
  case (3 f a b ts)
  from "3.prems" obtain acc where
    acc: "fold_tensors f (b # ts) = Inr acc" and z: "zip_tensor f a acc = Inr T"
    by (auto split: sum.splits)
  from "3.IH"[OF acc] shape_zip_tensor[OF z] show ?case by auto
qed

lemma fold_tensors_total:
  "ts \<noteq> [] \<Longrightarrow> (\<And>t. t \<in> set ts \<Longrightarrow> shape t = sh) \<Longrightarrow> \<exists>T. fold_tensors f ts = Inr T \<and> shape T = sh"
proof (induction f ts rule: fold_tensors.induct)
  case (1 f)
  then show ?case by simp
next
  case (2 f a)
  then show ?case by simp
next
  case (3 f a b ts)
  from "3.IH" "3.prems"(2) obtain acc where acc: "fold_tensors f (b # ts) = Inr acc" "shape acc = sh"
    by auto
  moreover have "shape a = sh" using "3.prems"(2) by simp
  ultimately show ?case by (auto simp: zip_tensor_def shape_def)
qed

lemma write_all_topology:
  "write_all cr out ks G = Inr G' \<Longrightarrow> topology G' = topology G"
  by (induction ks arbitrary: G) (auto split: sum.splits simp: topology_def)

lemma write_all_frame:
  "write_all cr out ks G = Inr G' \<Longrightarrow> k \<notin> set ks \<Longrightarrow> ndata G' k = ndata G k"
  by (induction ks arbitrary: G) (auto split: sum.splits)

lemma write_all_written:
  "write_all cr out ks G = Inr G' \<Longrightarrow> k \<in> set ks \<Longrightarrow>
     \<exists>T. cross_reduce cr (map snd (filter (\<lambda>p. fst p = k) out)) = Inr T \<and> ndata G' k = Some T"
proof (induction ks arbitrary: G)
  case Nil
  then show ?case by simp
next
  case (Cons k0 ks)
  from Cons.prems(1) obtain T0 where
    T0: "cross_reduce cr (map snd (filter (\<lambda>p. fst p = k0) out)) = Inr T0" and
    rest: "write_all cr out ks (G\<lparr>ndata := (ndata G)(k0 \<mapsto> T0)\<rparr>) = Inr G'"
    by (auto split: sum.splits)
  show ?case
  proof (cases "k \<in> set ks")
    case True
    from Cons.IH[OF rest True] show ?thesis .
  next
    case False
    with Cons.prems(2) have "k = k0" by simp
    with write_all_frame[OF rest False] T0 show ?thesis by simp
  qed
qed

lemma write_all_total:
  "(\<And>k. k \<in> set ks \<Longrightarrow> \<exists>T. cross_reduce cr (map snd (filter (\<lambda>p. fst p = k) out)) = Inr T)
     \<Longrightarrow> \<exists>G'. write_all cr out ks G = Inr G'"
proof (induction ks arbitrary: G)
  case Nil
  then show ?case by simp
next
  case (Cons k ks)
  from Cons.prems[of k] obtain T where "cross_reduce cr (map snd (filter (\<lambda>p. fst p = k) out)) = Inr T"
    by auto
  moreover from Cons.IH Cons.prems
  have "\<exists>G'. write_all cr out ks (G\<lparr>ndata := (ndata G)(k \<mapsto> T)\<rparr>) = Inr G'" by auto
  ultimately show ?case by simp
qed

lemma multi_update_all_Inr:
  assumes "multi_update_all G fs cr = Inr G'"
  shows "\<exists>out. apply_funcs G fs = Inr out \<and> topology G' = topology G \<and>
           (\<forall>k. k \<notin> fst ` set out \<longrightarrow> ndata G' k = ndata G k) \<and>
           (\<forall>k\<in>fst ` set out. \<exists>T. cross_reduce cr (map snd (filter (\<lambda>p. fst p = k) out)) = Inr T \<and>
                ndata G' k = Some T)"
proof -
  from assms obtain out where
    out: "apply_funcs G fs = Inr out" and w: "write_all cr out (remdups (map fst out)) G = Inr G'"
    by (auto simp: multi_update_all_def split: sum.splits)
  have "topology G' = topology G" by (rule write_all_topology[OF w])
  moreover have "\<forall>k. k \<notin> fst ` set out \<longrightarrow> ndata G' k = ndata G k"
    using write_all_frame[OF w] by simp
  moreover have "\<forall>k\<in>fst ` set out. \<exists>T. cross_reduce cr (map snd (filter (\<lambda>p. fst p = k) out)) = Inr T \<and>
                ndata G' k = Some T"
    using write_all_written[OF w] by simp
  ultimately show ?thesis using out by blast
qed

lemma topologyD:
  assumes "topology G' = topology G"
  shows "ntypes G' = ntypes G" "number_of_nodes G' = number_of_nodes G"
    "canonical_etypes G' = canonical_etypes G" "edges G' = edges G"
  using assms by (simp_all add: topology_def)

lemma set_update_subset:
  "p \<in> set (AList.update k v al) \<Longrightarrow> p = (k, v) \<or> p \<in> set al"
  by (induction al) (auto split: if_splits)

lemma forward_loop_funcs:
  "forward_loop L feat cs G fs = Inr (G', fs') \<Longrightarrow>
     fst ` set fs' = fst ` set fs \<union> (\<lambda>c. fst (snd c)) ` set cs \<and>
     (\<forall>p\<in>set fs'. p \<in> set fs \<or> snd p = (copy_u (Wh_name (fst p)) ''m'', fn_mean ''m'' ''h''))"
proof (induction cs arbitrary: G fs)
  case Nil
  then show ?case by simp
next
  case (Cons c cs)
  from Cons.prems obtain G0 where
    rest: "forward_loop L feat cs G0
             (AList.update (fst (snd c)) (copy_u (Wh_name (fst (snd c))) ''m'', fn_mean ''m'' ''h'') fs)
           = Inr (G', fs')"
    by (auto split: sum.splits)
  from Cons.IH[OF rest] show ?case
    by (auto simp: dom_update dest!: set_update_subset)
qed

lemma list_all2_left:
  "list_all2 P xs ys \<Longrightarrow> x \<in> set xs \<Longrightarrow> \<exists>y\<in>set ys. P x y"
  by (induction rule: list_all2_induct) auto

lemma list_all2_right:
  "list_all2 P xs ys \<Longrightarrow> y \<in> set ys \<Longrightarrow> \<exists>x\<in>set xs. P x y"
  by (induction rule: list_all2_induct) auto

text \<open>The aggregates that the layer's call of multi_update_all computes.\<close>

lemma layer_aggregates_right:
  assumes loop: "forward_loop L feat (canonical_etypes G) G [] = Inr (G1, fs)"
    and app: "apply_funcs G1 fs = Inr aout"
    and q: "q \<in> set aout"
  shows "\<exists>c\<in>set (canonical_etypes G). fst q = (snd (snd c), ''h'') \<and>
           update_rel G1 c (copy_u (Wh_name (fst (snd c))) ''m'', fn_mean ''m'' ''h'') = Inr (snd q)"
proof -
  from list_all2_right[OF apply_funcs_rel[OF app] q] obtain p c where
    p: "p \<in> set fs" and c: "to_canonical_etype G1 (fst p) = Inr c"
    and u: "update_rel G1 c (snd p) = Inr (snd q)" and k: "fst q = (snd (snd c), out_field (snd p))"
    by blast
  from forward_loop_funcs[OF loop] p
  have sp: "snd p = (copy_u (Wh_name (fst p)) ''m'', fn_mean ''m'' ''h'')" by auto
  from to_canonical_etype_mem[OF c] topologyD(3)[OF forward_loop_topology[OF loop]]
  have "c \<in> set (canonical_etypes G)" "fst (snd c) = fst p" by simp_all
  with u k sp show ?thesis by auto
qed

lemma layer_aggregates_left:
  assumes loop: "forward_loop L feat (canonical_etypes G) G [] = Inr (G1, fs)"
    and app: "apply_funcs G1 fs = Inr aout"
    and c: "c \<in> set (canonical_etypes G)"
  shows "\<exists>A. ((snd (snd c), ''h''), A) \<in> set aout \<and>
           update_rel G1 c (copy_u (Wh_name (fst (snd c))) ''m'', fn_mean ''m'' ''h'') = Inr A"
proof -
  from forward_loop_funcs[OF loop]
  have keys: "fst ` set fs = (\<lambda>c. fst (snd c)) ` set (canonical_etypes G)"
    and ents: "\<forall>p\<in>set fs. snd p = (copy_u (Wh_name (fst p)) ''m'', fn_mean ''m'' ''h'')"
    by simp_all
  from c keys have "fst (snd c) \<in> fst ` set fs" by blast
  then obtain p where p: "p \<in> set fs" and fp: "fst p = fst (snd c)" by auto
  from ents p have sp: "snd p = (copy_u (Wh_name (fst p)) ''m'', fn_mean ''m'' ''h'')" by blast
  from list_all2_left[OF apply_funcs_rel[OF app] p] obtain q c' where
    q: "q \<in> set aout" and c': "to_canonical_etype G1 (fst p) = Inr c'"
    and u: "update_rel G1 c' (snd p) = Inr (snd q)" and k: "fst q = (snd (snd c'), out_field (snd p))"
    by blast
  from c topologyD(3)[OF forward_loop_topology[OF loop]]
  have "c \<in> set (canonical_etypes G1)" by simp
  from to_canonical_etype_unique[OF c' this] fp have "c = c'" by simp
  from k sp \<open>c = c'\<close> have "q = ((snd (snd c), ''h''), snd q)"
    by (simp add: prod_eq_iff)
  with q have "((snd (snd c), ''h''), snd q) \<in> set aout" by simp
  with u sp fp \<open>c = c'\<close> show ?thesis by auto
qed

text \<open>
  A pass that gets past the resolution of the keys of \<^verbatim>\<open>funcs\<close> is a pass over pairwise
  distinct relation names.
\<close>

lemma layer_relation_names_distinct:
  assumes loop: "forward_loop L feat (canonical_etypes G) G [] = Inr (G1, fs)"
    and app: "apply_funcs G1 fs = Inr aout"
    and c: "c \<in> set (canonical_etypes G)" and c': "c' \<in> set (canonical_etypes G)"
    and r: "fst (snd c) = fst (snd c')"
  shows "c = c'"
proof -
  from forward_loop_funcs[OF loop]
  have keys: "fst ` set fs = (\<lambda>c. fst (snd c)) ` set (canonical_etypes G)" by simp
  from c keys have "fst (snd c) \<in> fst ` set fs" by blast
  then obtain p where p: "p \<in> set fs" and fp: "fst p = fst (snd c)" by auto
  from list_all2_left[OF apply_funcs_rel[OF app] p] obtain c0 where
    c0: "to_canonical_etype G1 (fst p) = Inr c0" by blast
  have eq: "canonical_etypes G1 = canonical_etypes G"
    by (rule topologyD(3)[OF forward_loop_topology[OF loop]])
  from to_canonical_etype_unique[OF c0, of c] to_canonical_etype_unique[OF c0, of c'] c c' r fp eq
  show ?thesis by simp
qed

lemma weight_HeteroRGCNLayer:
  "weight (HeteroRGCNLayer i o' names init) r =
     (if r \<in> set names then Some (Linear i o' (fst (init r)) (snd (init r))) else None)"
  by (induction names) (auto simp: HeteroRGCNLayer_def)

lemma compute_Wh_ncols:
  "compute_Wh (HeteroRGCNLayer i o' names init) feat c = Inr Wh \<Longrightarrow> ncols Wh = o'"
  by (auto simp: compute_Wh_def weight_HeteroRGCNLayer linear_forward_def Linear_def
      split: option.splits if_splits)

lemma forward_InrD:
  assumes "forward L G feat = Inr (G', out)"
  shows "\<exists>G1 fs aout. forward_loop L feat (canonical_etypes G) G [] = Inr (G1, fs) \<and>
           apply_funcs G1 fs = Inr aout \<and>
           write_all Sum aout (remdups (map fst aout)) G1 = Inr G' \<and>
           collect_h G' (ntypes G') = Inr out"
  using assms by (auto simp: forward_def propagate_def multi_update_all_def split: sum.splits)

lemma collect_h_Inr:
  "collect_h G ts = Inr out \<Longrightarrow>
     map fst out = ts \<and> (\<forall>p\<in>set out. ndata G (fst p, ''h'') = Some (snd p))"
  by (induction ts arbitrary: out) (auto split: option.splits sum.splits)

lemma collect_h_total:
  "(\<And>t. t \<in> set ts \<Longrightarrow> ndata G (t, ''h'') \<noteq> None) \<Longrightarrow> \<exists>out. collect_h G ts = Inr out"
  by (induction ts) (auto split: option.splits sum.splits)

section \<open>What one pass of the layer leaves behind\<close>

lemma layer_aggregate_shape:
  assumes loop: "forward_loop (HeteroRGCNLayer i o' names init) feat (canonical_etypes G) G [] = Inr (G1, fs)"
    and c: "c \<in> set (canonical_etypes G)"
    and u: "update_rel G1 c (copy_u (Wh_name (fst (snd c))) ''m'', fn_mean ''m'' ''h'') = Inr A"
  shows "shape A = (number_of_nodes G (snd (snd c)), o')"
proof -
  from forward_loop_stored[OF loop c] obtain Wh where
    Wh: "compute_Wh (HeteroRGCNLayer i o' names init) feat c = Inr Wh"
    and st: "ndata G1 (Wh_slot c) = Some Wh" by blast
  from update_rel_Inr[OF u] st have "ncols A = ncols Wh" by (auto simp: Wh_slot_def)
  moreover from update_rel_shape(1)[OF u] topologyD(2)[OF forward_loop_topology[OF loop]]
  have "length (rows A) = number_of_nodes G (snd (snd c))" by simp
  ultimately show ?thesis using compute_Wh_ncols[OF Wh] by (simp add: shape_def)
qed

lemma fst_aggregates:
  assumes loop: "forward_loop L feat (canonical_etypes G) G [] = Inr (G1, fs)"
    and app: "apply_funcs G1 fs = Inr aout"
  shows "fst ` set aout = (\<lambda>c. (snd (snd c), ''h'')) ` set (canonical_etypes G)"
proof (rule set_eqI, rule iffI)
  fix k assume "k \<in> fst ` set aout"
  then obtain q where q: "q \<in> set aout" "k = fst q" by auto
  from layer_aggregates_right[OF loop app q(1)] q(2)
  show "k \<in> (\<lambda>c. (snd (snd c), ''h'')) ` set (canonical_etypes G)"
    by blast
next
  fix k assume "k \<in> (\<lambda>c. (snd (snd c), ''h'')) ` set (canonical_etypes G)"
  then obtain c where c: "c \<in> set (canonical_etypes G)" "k = (snd (snd c), ''h'')" by auto
  from layer_aggregates_left[OF loop app c(1)] c(2) show "k \<in> fst ` set aout"
    by force
qed

lemma Wh_slot_not_h: "Wh_slot c \<noteq> (t, ''h'')"
  by (simp add: Wh_slot_def Wh_name_not_h)

lemma forward_h_shape:
  assumes fw: "forward (HeteroRGCNLayer i o' names init) G feat = Inr (G', out)"
    and c: "c \<in> set (canonical_etypes G)"
  shows "\<exists>T. ndata G' (snd (snd c), ''h'') = Some T \<and> shape T = (number_of_nodes G (snd (snd c)), o')"
proof -
  from forward_InrD[OF fw] obtain G1 fs aout where
    loop: "forward_loop (HeteroRGCNLayer i o' names init) feat (canonical_etypes G) G [] = Inr (G1, fs)" and
    app: "apply_funcs G1 fs = Inr aout" and
    w: "write_all Sum aout (remdups (map fst aout)) G1 = Inr G'" by blast
  from layer_aggregates_left[OF loop app c] obtain A where
    A: "((snd (snd c), ''h''), A) \<in> set aout"
    and u: "update_rel G1 c (copy_u (Wh_name (fst (snd c))) ''m'', fn_mean ''m'' ''h'') = Inr A"
    by blast
  from A have "(snd (snd c), ''h'') \<in> set (remdups (map fst aout))" by force
  from write_all_written[OF w this] obtain T where
    T: "fold_tensors (+) (map snd (filter (\<lambda>p. fst p = (snd (snd c), ''h'')) aout)) = Inr T"
    and st: "ndata G' (snd (snd c), ''h'') = Some T" by auto
  from A have "A \<in> set (map snd (filter (\<lambda>p. fst p = (snd (snd c), ''h'')) aout))" by force
  with fold_tensors_Inr[OF T] have "shape A = shape T" by blast
  with layer_aggregate_shape[OF loop c u] st show ?thesis by simp
qed

lemma forward_partial:
  assumes fw: "forward (HeteroRGCNLayer i o' names init) G feat = Inr (G', out)"
  shows "map fst out = ntypes G"
    and "p \<in> set out \<Longrightarrow> fst p \<in> dst_types G \<Longrightarrow> shape (snd p) = (number_of_nodes G (fst p), o')"
proof -
  from forward_InrD[OF fw] obtain G1 fs aout where
    loop: "forward_loop (HeteroRGCNLayer i o' names init) feat (canonical_etypes G) G [] = Inr (G1, fs)" and
    w: "write_all Sum aout (remdups (map fst aout)) G1 = Inr G'" and
    col: "collect_h G' (ntypes G') = Inr out" by blast
  have "ntypes G' = ntypes G"
    using write_all_topology[OF w] forward_loop_topology[OF loop] by (simp add: topology_def)
  with collect_h_Inr[OF col] show "map fst out = ntypes G" by simp
  assume p: "p \<in> set out" and d: "fst p \<in> dst_types G"
  from d obtain c where c: "c \<in> set (canonical_etypes G)" "snd (snd c) = fst p"
    by (auto simp: dst_types_def)
  from forward_h_shape[OF fw c(1)] c(2) collect_h_Inr[OF col] p
  show "shape (snd p) = (number_of_nodes G (fst p), o')" by auto
qed

lemma forward_topology:
  assumes "forward L G feat = Inr (G', out)"
  shows "topology G' = topology G"
proof -
  from forward_InrD[OF assms] obtain G1 fs aout where
    "forward_loop L feat (canonical_etypes G) G [] = Inr (G1, fs)"
    "write_all Sum aout (remdups (map fst aout)) G1 = Inr G'" by blast
  then show ?thesis using write_all_topology forward_loop_topology by metis
qed

lemma forward_loop_total:
  "(\<And>c. c \<in> set cs \<Longrightarrow>
       \<exists>Wh. compute_Wh L feat c = Inr Wh \<and> length (rows Wh) = number_of_nodes G (fst c))
     \<Longrightarrow> \<exists>G1 fs'. forward_loop L feat cs G fs = Inr (G1, fs')"
proof (induction cs arbitrary: G fs)
  case Nil
  then show ?case by simp
next
  case (Cons c cs)
  from Cons.prems[of c] obtain Wh where
    Wh: "compute_Wh L feat c = Inr Wh" "length (rows Wh) = number_of_nodes G (fst c)" by auto
  define G0 where "G0 = G\<lparr>ndata := (ndata G)((fst c, Wh_name (fst (snd c))) \<mapsto> Wh)\<rparr>"
  have s: "set_n_repr G (fst c) (Wh_name (fst (snd c))) Wh = Inr G0"
    using Wh(2) by (simp add: set_n_repr_def G0_def)
  have "\<exists>G1 fs'. forward_loop L feat cs G0
          (AList.update (fst (snd c)) (copy_u (Wh_name (fst (snd c))) ''m'', fn_mean ''m'' ''h'') fs)
        = Inr (G1, fs')"
  proof (rule Cons.IH)
    fix c' assume "c' \<in> set cs"
    with Cons.prems[of c'] show "\<exists>Wh. compute_Wh L feat c' = Inr Wh \<and>
        length (rows Wh) = number_of_nodes G0 (fst c')"
      by (simp add: G0_def)
  qed
  with Wh(1) s show ?case by simp
qed

lemma compute_Wh_total:
  assumes "fst (snd c) \<in> set names" and "feat (fst c) = Some x" and "shape x = (n, i)"
  shows "\<exists>Wh. compute_Wh (HeteroRGCNLayer i o' names init) feat c = Inr Wh \<and> length (rows Wh) = n"
  using assms
  by (simp add: compute_Wh_def weight_HeteroRGCNLayer linear_forward_def Linear_def shape_def)

text \<open>When the pass returns, and what it returns then.\<close>

lemma forward_total:
  assumes names: "set (etypes G) \<subseteq> set names"
    and dist: "distinct (etypes G)"
    and feat: "\<forall>c\<in>set (canonical_etypes G).
                 \<exists>x. feat (fst c) = Some x \<and> shape x = (number_of_nodes G (fst c), in_size)"
    and dst: "set (ntypes G) = dst_types G"
  shows "\<exists>G' out. forward (HeteroRGCNLayer in_size out_size names init) G feat = Inr (G', out) \<and>
           map fst out = ntypes G \<and> set (map fst out) = dst_types G \<and>
           (\<forall>p\<in>set out. shape (snd p) = (number_of_nodes G (fst p), out_size))"
proof -
  let ?L = "HeteroRGCNLayer in_size out_size names init"
  let ?ent = "\<lambda>r. (copy_u (Wh_name r) ''m'', fn_mean ''m'' ''h'')"
  have "\<exists>G1 fs. forward_loop ?L feat (canonical_etypes G) G [] = Inr (G1, fs)"
  proof (rule forward_loop_total)
    fix c assume c: "c \<in> set (canonical_etypes G)"
    with feat obtain x where x: "feat (fst c) = Some x" "shape x = (number_of_nodes G (fst c), in_size)"
      by blast
    from c names have "fst (snd c) \<in> set names" by (auto simp: etypes_def)
    from compute_Wh_total[where feat = feat and c = c, OF this x]
    show "\<exists>Wh. compute_Wh ?L feat c = Inr Wh \<and> length (rows Wh) = number_of_nodes G (fst c)" .
  qed
  then obtain G1 fs where loop: "forward_loop ?L feat (canonical_etypes G) G [] = Inr (G1, fs)"
    by blast
  note top1 = forward_loop_topology[OF loop]
  have dist1: "distinct (etypes G1)" using dist topologyD(3)[OF top1] by (simp add: etypes_def)
  have "\<exists>aout. apply_funcs G1 fs = Inr aout"
  proof (rule apply_funcs_total)
    fix p assume p: "p \<in> set fs"
    from forward_loop_funcs[OF loop] p
    have sp: "snd p = ?ent (fst p)" and "fst p \<in> (\<lambda>c. fst (snd c)) ` set (canonical_etypes G)"
      by auto
    then obtain c where c: "c \<in> set (canonical_etypes G)" "fst (snd c) = fst p" by auto
    from c(1) topologyD(3)[OF top1] have c1: "c \<in> set (canonical_etypes G1)" by simp
    from to_canonical_etype_distinct[OF dist1 c1] c(2)
    have r: "to_canonical_etype G1 (fst p) = Inr c" by simp
    from forward_loop_stored[OF loop c(1)] obtain Wh where "ndata G1 (Wh_slot c) = Some Wh" by blast
    then have "\<exists>A. update_rel G1 c (snd p) = Inr A"
      using sp c(2) by (cases c) (simp add: Wh_slot_def)
    with r show "\<exists>c A. to_canonical_etype G1 (fst p) = Inr c \<and> update_rel G1 c (snd p) = Inr A"
      by blast
  qed
  then obtain aout where app: "apply_funcs G1 fs = Inr aout" by blast
  have "\<exists>G'. write_all Sum aout (remdups (map fst aout)) G1 = Inr G'"
  proof (rule write_all_total)
    fix k assume "k \<in> set (remdups (map fst aout))"
    then have ne: "map snd (filter (\<lambda>p. fst p = k) aout) \<noteq> []"
      by (auto simp: filter_empty_conv)
    have "\<exists>T. fold_tensors (+) (map snd (filter (\<lambda>p. fst p = k) aout)) = Inr T \<and>
            shape T = (number_of_nodes G (fst k), out_size)"
    proof (rule fold_tensors_total[OF ne])
      fix t assume "t \<in> set (map snd (filter (\<lambda>p. fst p = k) aout))"
      then obtain q where q: "q \<in> set aout" "fst q = k" "snd q = t" by auto
      from layer_aggregates_right[OF loop app q(1)] obtain c where
        c: "c \<in> set (canonical_etypes G)" "fst q = (snd (snd c), ''h'')"
        and u: "update_rel G1 c (?ent (fst (snd c))) = Inr (snd q)" by blast
      from layer_aggregate_shape[OF loop c(1) u] c(2) q(2,3)
      show "shape t = (number_of_nodes G (fst k), out_size)" by auto
    qed
    then show "\<exists>T. cross_reduce Sum (map snd (filter (\<lambda>p. fst p = k) aout)) = Inr T" by auto
  qed
  then obtain G' where w: "write_all Sum aout (remdups (map fst aout)) G1 = Inr G'" by blast
  note keys = fst_aggregates[OF loop app]
  have nt: "ntypes G' = ntypes G"
    using write_all_topology[OF w] top1 by (simp add: topology_def)
  have "\<exists>out. collect_h G' (ntypes G') = Inr out"
  proof (rule collect_h_total)
    fix t assume "t \<in> set (ntypes G')"
    with nt dst obtain c where c: "c \<in> set (canonical_etypes G)" "snd (snd c) = t"
      by (auto simp: dst_types_def)
    with keys have "(t, ''h'') \<in> set (remdups (map fst aout))" by auto
    from write_all_written[OF w this] show "ndata G' (t, ''h'') \<noteq> None" by auto
  qed
  then obtain out where col: "collect_h G' (ntypes G') = Inr out" by blast
  from loop app w col have fw: "forward ?L G feat = Inr (G', out)"
    by (simp add: forward_def propagate_def multi_update_all_def)
  from forward_partial(1)[OF fw] have keys_out: "map fst out = ntypes G" .
  have "shape (snd p) = (number_of_nodes G (fst p), out_size)" if "p \<in> set out" for p
  proof -
    from that keys_out have "fst p \<in> set (ntypes G)" by (metis image_eqI list.set_map)
    with dst forward_partial(2)[OF fw that] show ?thesis by simp
  qed
  moreover from keys_out dst have "set (map fst out) = dst_types G" by simp
  ultimately show ?thesis using fw keys_out by blast
qed

section \<open>Sums of aggregates\<close>

lemma fold_tensors_Cons:
  "xs \<noteq> [] \<Longrightarrow> fold_tensors f (a # xs) =
     (case fold_tensors f xs of Inl e \<Rightarrow> Inl e | Inr acc \<Rightarrow> zip_tensor f a acc)"
  by (cases xs) simp_all

lemma zip_tensor_add_nth:
  assumes z: "zip_tensor (+) a b = Inr T" and wa: "wf_tensor a" and wb: "wf_tensor b"
  shows "wf_tensor T" and "v < length (rows T) \<Longrightarrow> j < ncols T \<Longrightarrow>
           rows T ! v ! j = rows a ! v ! j + rows b ! v ! j"
proof -
  from z have sh: "length (rows a) = length (rows b)" "ncols a = ncols b"
    and T: "T = Tensor (ncols a) (map2 (map2 (+)) (rows a) (rows b))"
    by (auto simp: zip_tensor_def shape_def split: if_splits)
  from wa wb have la: "\<And>v. v < length (rows a) \<Longrightarrow> length (rows a ! v) = ncols a"
    and lb: "\<And>v. v < length (rows b) \<Longrightarrow> length (rows b ! v) = ncols b"
    by (simp_all add: wf_tensor_def list_all_length)
  show "wf_tensor T"
    using T sh la lb by (simp add: wf_tensor_def list_all_length)
  assume "v < length (rows T)" "j < ncols T"
  with T sh la lb show "rows T ! v ! j = rows a ! v ! j + rows b ! v ! j" by simp
qed

lemma fold_tensors_sum:
  assumes "fold_tensors (+) ts = Inr T" and "\<forall>t\<in>set ts. wf_tensor t"
  shows "wf_tensor T \<and>
         (\<forall>v<length (rows T). \<forall>j<ncols T. rows T ! v ! j = (\<Sum>t\<leftarrow>ts. rows t ! v ! j))"
proof -
  from fold_tensors_Inr[OF assms(1)] have "ts \<noteq> []" by simp
  then show ?thesis using assms
  proof (induction ts arbitrary: T rule: list_nonempty_induct)
    case (single a)
    then show ?case by simp
  next
    case (cons a xs)
    from cons.prems(1) cons.hyps obtain acc where
      acc: "fold_tensors (+) xs = Inr acc" and z: "zip_tensor (+) a acc = Inr T"
      by (auto simp: fold_tensors_Cons split: sum.splits)
    from cons.IH[OF acc] cons.prems(2)
    have wacc: "wf_tensor acc"
      and vals: "\<forall>v<length (rows acc). \<forall>j<ncols acc. rows acc ! v ! j = (\<Sum>t\<leftarrow>xs. rows t ! v ! j)"
      by simp_all
    from cons.prems(2) have wa: "wf_tensor a" by simp
    from shape_zip_tensor[OF z] have sh: "shape acc = shape T" by simp
    have "rows T ! v ! j = (\<Sum>t\<leftarrow>a # xs. rows t ! v ! j)" if "v < length (rows T)" "j < ncols T" for v j
    proof -
      from sh that have "v < length (rows acc)" "j < ncols acc" by (simp_all add: shape_def)
      with vals have "rows acc ! v ! j = (\<Sum>t\<leftarrow>xs. rows t ! v ! j)" by simp
      with zip_tensor_add_nth(2)[OF z wa wacc that] show ?thesis by simp
    qed
    with zip_tensor_add_nth(1)[OF z wa wacc] show ?case by simp
  qed
qed

lemma update_rel_any_shape:
  assumes "update_rel G c f = Inr A"
  shows "length (rows A) = number_of_nodes G (snd (snd c))" and "wf_tensor A"
proof -
  obtain src m m' dst where "f = (copy_u src m, fn_mean m' dst)"
    by (cases f) (metis message_func.exhaust reduce_func.exhaust)
  with assms update_rel_shape show "length (rows A) = number_of_nodes G (snd (snd c))" and "wf_tensor A"
    by blast+
qed

section \<open>The scenarios, evaluated\<close>

lemmas layer_eval = forward_def propagate_def compute_Wh_def linear_forward_def set_n_repr_def
      Wh_name_def linear_row_def dot_def multi_update_all_def to_canonical_etype_def in_msgs_def
      mean_reduce_def zip_tensor_def shape_def HeteroRGCNLayer_def Linear_def upt_rec

text \<open>The graphs of the scenarios satisfy the invariant.\<close>

lemma scenario_graphs_wf:
  "wf_graph ratings" "wf_graph citing_graph" "wf_graph acm_small" "wf_graph reviews"
  by (simp_all add: wf_graph_def ratings_def citing_graph_def acm_small_def reviews_def)

text \<open>The loaded graphs are the states that the loop of the layer reaches.\<close>

lemma ratings_loop_state:
  "forward_loop (HeteroRGCNLayer 2 2 [''+1'', ''-1''] identity_init) feat_S1
     (canonical_etypes ratings) ratings [] = Inr (ratings_loaded, funcs_S1)"
  by (simp add: layer_eval identity_init_def ratings_def feat_S1_def ratings_loaded_def funcs_S1_def)

lemma citing_loop_state:
  "map_sum id fst (forward_loop (HeteroRGCNLayer 1 1 [''citing''] identity_init) (feat_S2 a)
     (canonical_etypes citing_graph) citing_graph []) = Inr citing_loaded"
  by (simp add: layer_eval identity_init_def citing_graph_def feat_S2_def citing_loaded_def)

lemma citing_forward_returns:
  "\<exists>G' out. forward (HeteroRGCNLayer 1 1 [''citing''] identity_init) citing_graph (feat_S2 a) = Inr (G', out)"
  by (simp add: layer_eval identity_init_def citing_graph_def feat_S2_def)

lemma reviews_loop_returns:
  "\<exists>G1 fs. forward_loop (HeteroRGCNLayer 1 1 [''rates''] double_init) feat_reviews
              (canonical_etypes reviews) reviews [] = Inr (G1, fs)"
  by (simp add: layer_eval double_init_def reviews_def feat_reviews_def)

text \<open>
  On the graph with a shared relation name the loop goes through, and the call of
  \<^verbatim>\<open>multi_update_all\<close>, whose keys are relation names, is refused as ambiguous.
\<close>

lemma reviews_forward_ambiguous:
  "forward (HeteroRGCNLayer 1 1 [''rates''] double_init) reviews feat_reviews
     = Inl (AmbiguousRelation ''rates'')"
  by (simp add: layer_eval double_init_def reviews_def feat_reviews_def)

lemma ratings_loaded_returns:
  "\<exists>G'. multi_update_all ratings_loaded funcs_S1 Sum = Inr G'"
  by (simp add: layer_eval ratings_loaded_def ratings_def funcs_S1_def numeral_2_eq_2)

text \<open>
  The two-layer model on the small ACM graph: the first layer gives negative values
  (\<open>-1\<close> and \<open>-2\<close> for the papers), the activation scales them by 0.01, and the second
  layer maps them to the logits.
\<close>

lemma acm_model_logits:
  "map_sum id snd (HeteroRGCN_forward (HeteroRGCN acm_small 1 1 1 embed_init negate_init double_init) acm_small)
     = Inr (Tensor 1 [[97 / 100], [39 / 20]])"
  by (simp add: HeteroRGCN_forward_def HeteroRGCN_def Parameter_def activate_def map_tensor_def
      leaky_relu_def etypes_def layer_eval acm_small_def embed_init_def negate_init_def double_init_def)

section \<open>The activation between the layers\<close>

lemma leaky_relu_slope: "leaky_relu x = (if x < 0 then x / 100 else x)"
  by (simp add: leaky_relu_def max_def min_def)

lemma map_of_tabulate:
  "map_of (map (\<lambda>k. (k, f k)) ks) k = (if k \<in> set ks then Some (f k) else None)"
  by (induction ks) auto

lemma shape_Parameter: "shape (Parameter n w Ef) = (n, w)"
  by (simp add: shape_def Parameter_def)

lemma shape_map_tensor: "shape (map_tensor f x) = shape x"
  by (simp add: shape_def map_tensor_def)

lemma map_fst_activate: "map fst (activate h) = map fst h"
  by (simp add: activate_def comp_def)

lemma map_of_activate_shape:
  assumes "t \<in> set (map fst h)" and "\<forall>p\<in>set h. shape (snd p) = (n (fst p), w)"
  shows "\<exists>x. map_of (activate h) t = Some x \<and> shape x = (n t, w)"
proof -
  from assms(1) have "t \<in> fst ` set (activate h)"
    using map_fst_activate[of h] by (metis list.set_map)
  then obtain x where x: "map_of (activate h) t = Some x"
    by (cases "map_of (activate h) t") (auto simp: map_of_eq_None_iff)
  from map_of_SomeD[OF x] obtain p where "p \<in> set h" "t = fst p" "x = map_tensor leaky_relu (snd p)"
    by (auto simp: activate_def)
  with assms(2) x show ?thesis by (auto simp: shape_map_tensor)
qed

text \<open>What the stacked model returns when it returns, and when it does return.\<close>

lemma HeteroRGCN_forward_partial:
  assumes run: "HeteroRGCN_forward (HeteroRGCN G0 in_size hidden_size out_size E init1 init2) G
                  = Inr (G', logits)"
  shows "\<exists>G1 h1 h2.
           forward (HeteroRGCNLayer in_size hidden_size (etypes G0) init1) G
             (map_of (map (\<lambda>t. (t, Parameter (number_of_nodes G0 t) in_size (E t))) (ntypes G0)))
             = Inr (G1, h1) \<and>
           forward (HeteroRGCNLayer hidden_size out_size (etypes G0) init2) G1
             (map_of (map (\<lambda>p. (fst p, Tensor (ncols (snd p))
                                       (map (map (\<lambda>x. if x < 0 then x / 100 else x)) (rows (snd p))))) h1))
             = Inr (G', h2) \<and>
           map_of h2 ''paper'' = Some logits \<and>
           (''paper'' \<in> dst_types G \<longrightarrow> shape logits = (number_of_nodes G ''paper'', out_size))"
proof -
  let ?M = "HeteroRGCN G0 in_size hidden_size out_size E init1 init2"
  from run obtain G1 h1 h2 where
    f1: "forward (layer1 ?M) G (embed ?M) = Inr (G1, h1)" and
    f2: "forward (layer2 ?M) G1 (map_of (activate h1)) = Inr (G', h2)" and
    lg: "map_of h2 ''paper'' = Some logits"
    by (auto simp: HeteroRGCN_forward_def split: sum.splits option.splits)
  have act: "activate h1 = map (\<lambda>p. (fst p, Tensor (ncols (snd p))
                                       (map (map (\<lambda>x. if x < 0 then x / 100 else x)) (rows (snd p))))) h1"
    by (simp add: activate_def map_tensor_def leaky_relu_slope[abs_def])
  have l2: "layer2 ?M = HeteroRGCNLayer hidden_size out_size (etypes G0) init2"
    and l1: "layer1 ?M = HeteroRGCNLayer in_size hidden_size (etypes G0) init1"
    and em: "embed ?M = map_of (map (\<lambda>t. (t, Parameter (number_of_nodes G0 t) in_size (E t))) (ntypes G0))"
    by (simp_all add: HeteroRGCN_def)
  note top = topologyD[OF forward_topology[OF f1]]
  from lg have mem: "(''paper'', logits) \<in> set h2" by (rule map_of_SomeD)
  have sh: "shape logits = (number_of_nodes G ''paper'', out_size)" if paper: "''paper'' \<in> dst_types G"
  proof -
    from paper top(3) have p1: "''paper'' \<in> dst_types G1" by (simp add: dst_types_def)
    from forward_partial(2)[OF f2[unfolded l2] mem] p1 top(2) show ?thesis by simp
  qed
  from f1[unfolded l1 em] f2[unfolded l2 act] lg sh show ?thesis by blast
qed

lemma HeteroRGCN_forward_total:
  assumes dist: "distinct (etypes G)"
    and src: "src_types G \<subseteq> set (ntypes G)"
    and dst: "set (ntypes G) = dst_types G"
    and paper: "''paper'' \<in> set (ntypes G)"
  shows "\<exists>G1 h1 G2 h2 logits.
           forward (HeteroRGCNLayer in_size hidden_size (etypes G) init1) G
             (map_of (map (\<lambda>t. (t, Parameter (number_of_nodes G t) in_size (E t))) (ntypes G)))
             = Inr (G1, h1) \<and>
           forward (HeteroRGCNLayer hidden_size out_size (etypes G) init2) G1
             (map_of (map (\<lambda>p. (fst p, Tensor (ncols (snd p))
                                       (map (map (\<lambda>x. if x < 0 then x / 100 else x)) (rows (snd p))))) h1))
             = Inr (G2, h2) \<and>
           map_of h2 ''paper'' = Some logits \<and>
           HeteroRGCN_forward (HeteroRGCN G in_size hidden_size out_size E init1 init2) G
             = Inr (G2, logits) \<and>
           shape logits = (number_of_nodes G ''paper'', out_size)"
proof -
  let ?M = "HeteroRGCN G in_size hidden_size out_size E init1 init2"
  let ?emb = "map_of (map (\<lambda>t. (t, Parameter (number_of_nodes G t) in_size (E t))) (ntypes G))"
  have feat1: "\<forall>c\<in>set (canonical_etypes G).
                 \<exists>x. ?emb (fst c) = Some x \<and> shape x = (number_of_nodes G (fst c), in_size)"
  proof
    fix c assume "c \<in> set (canonical_etypes G)"
    with src have "fst c \<in> set (ntypes G)" by (auto simp: src_types_def)
    then show "\<exists>x. ?emb (fst c) = Some x \<and> shape x = (number_of_nodes G (fst c), in_size)"
      by (simp add: map_of_tabulate shape_Parameter)
  qed
  from forward_total[OF subset_refl dist feat1 dst, of hidden_size init1] obtain G1 h1 where
    f1: "forward (HeteroRGCNLayer in_size hidden_size (etypes G) init1) G ?emb = Inr (G1, h1)"
    and k1: "map fst h1 = ntypes G"
    and s1: "\<forall>p\<in>set h1. shape (snd p) = (number_of_nodes G (fst p), hidden_size)" by blast
  note top = topologyD[OF forward_topology[OF f1]]
  have et1: "etypes G1 = etypes G" and dt1: "dst_types G1 = dst_types G"
    using top(3) by (simp_all add: etypes_def dst_types_def)
  have feat2: "\<forall>c\<in>set (canonical_etypes G1).
                 \<exists>x. map_of (activate h1) (fst c) = Some x \<and>
                     shape x = (number_of_nodes G1 (fst c), hidden_size)"
  proof
    fix c assume "c \<in> set (canonical_etypes G1)"
    with src top(3) k1 have "fst c \<in> set (map fst h1)" by (auto simp: src_types_def)
    from map_of_activate_shape[OF this s1] top(2)
    show "\<exists>x. map_of (activate h1) (fst c) = Some x \<and>
              shape x = (number_of_nodes G1 (fst c), hidden_size)" by simp
  qed
  have sub2: "set (etypes G1) \<subseteq> set (etypes G)" using et1 by simp
  have dist2: "distinct (etypes G1)" using dist et1 by simp
  have dst2: "set (ntypes G1) = dst_types G1" using dst top(1) dt1 by simp
  from forward_total[OF sub2 dist2 feat2 dst2, of out_size init2] obtain G2 h2 where
    f2: "forward (HeteroRGCNLayer hidden_size out_size (etypes G) init2) G1 (map_of (activate h1))
           = Inr (G2, h2)"
    and k2: "map fst h2 = ntypes G1"
    and s2: "\<forall>p\<in>set h2. shape (snd p) = (number_of_nodes G1 (fst p), out_size)" by blast
  from paper k2 top(1) have "''paper'' \<in> fst ` set h2" by (metis list.set_map)
  then obtain logits where lg: "map_of h2 ''paper'' = Some logits"
    by (cases "map_of h2 ''paper''") (auto simp: map_of_eq_None_iff)
  from map_of_SomeD[OF lg] s2 top(2)
  have sh: "shape logits = (number_of_nodes G ''paper'', out_size)" by auto
  have act: "activate h1 = map (\<lambda>p. (fst p, Tensor (ncols (snd p))
                                       (map (map (\<lambda>x. if x < 0 then x / 100 else x)) (rows (snd p))))) h1"
    by (simp add: activate_def map_tensor_def leaky_relu_slope[abs_def])
  from f1 f2 lg have run: "HeteroRGCN_forward ?M G = Inr (G2, logits)"
    by (simp add: HeteroRGCN_forward_def HeteroRGCN_def)
  from f1 f2 lg run sh act show ?thesis by auto
qed

section \<open>The label cell\<close>

lemma generate_labels_simps:
  "heap (generate_labels h pvc) (indices pvc) =
     map (\<lambda>c. if c = 11 then 1 else if c = 13 then 2 else c) (h (indices pvc))"
  "a \<noteq> indices pvc \<Longrightarrow> heap (generate_labels h pvc) a = h a"
  "labels (generate_labels h pvc) = heap (generate_labels h pvc) (indices pvc)"
  "labels_array (generate_labels h pvc) = indices pvc"
  "pid (generate_labels h pvc) = selected_rows h pvc c_selected"
  by (simp_all add: generate_labels_def masked_assign_def Let_def)

lemma map_snd_csr_entries:
  "map snd (csr_entries h M) =
     concat (map (cols_of_row (h (indptr M)) (h (indices M))) [0..<n_rows M])"
  by (simp add: csr_entries_def map_concat comp_def)

lemma cols_cover:
  assumes "sorted ptr" and "ptr ! 0 = 0" and "k < length ptr"
  shows "concat (map (cols_of_row ptr idx) [0..<k]) = take (ptr ! k) idx"
  using assms(3)
proof (induction k)
  case 0
  then show ?case by (simp add: assms(2))
next
  case (Suc k)
  from Suc.prems assms(1) have le: "ptr ! k \<le> ptr ! Suc k"
    by (simp add: sorted_iff_nth_mono)
  from Suc have IH: "concat (map (cols_of_row ptr idx) [0..<k]) = take (ptr ! k) idx" by simp
  have "concat (map (cols_of_row ptr idx) [0..<Suc k]) =
      concat (map (cols_of_row ptr idx) [0..<k]) @ cols_of_row ptr idx k" by simp
  also have "\<dots> = take (ptr ! k) idx @ take (ptr ! Suc k - ptr ! k) (drop (ptr ! k) idx)"
    by (simp only: IH cols_of_row_def)
  also have "\<dots> = take (ptr ! k + (ptr ! Suc k - ptr ! k)) idx"
    by (simp add: take_add)
  finally show ?case using le by simp
qed

lemma wf_csr_columns:
  assumes "wf_csr h M"
  shows "snd ` set (csr_entries h M) = set (h (indices M))"
proof -
  from assms have "concat (map (cols_of_row (h (indptr M)) (h (indices M))) [0..<n_rows M]) =
      take (h (indptr M) ! n_rows M) (h (indices M))"
    by (intro cols_cover) (simp_all add: wf_csr_def)
  with assms have "map snd (csr_entries h M) = h (indices M)"
    by (simp add: map_snd_csr_entries wf_csr_def)
  then have "set (map snd (csr_entries h M)) = set (h (indices M))" by simp
  then show ?thesis by simp
qed

lemma csr_columns_subset:
  "snd ` set (csr_entries h M) \<subseteq> set (h (indices M))"
proof -
  have "set (cols_of_row ptr idx i) \<subseteq> set idx" for ptr idx i
    unfolding cols_of_row_def by (meson set_take_subset set_drop_subset subset_trans)
  then have "set (map snd (csr_entries h M)) \<subseteq> set (h (indices M))"
    unfolding map_snd_csr_entries by auto
  then show ?thesis by simp
qed

lemma cols_of_row_single:
  assumes "i < n" and "length idx = n"
  shows "cols_of_row [0..<Suc n] idx i = [idx ! i]"
proof -
  from assms have "[0..<Suc n] ! Suc i = Suc i" "[0..<Suc n] ! i = i"
    by (simp_all del: upt_Suc)
  with assms show ?thesis
    by (simp add: cols_of_row_def take_Suc_conv_app_nth del: upt_Suc)
qed

lemma csr_entries_single:
  assumes "h (indptr M) = [0..<Suc (n_rows M)]" and "length (h (indices M)) = n_rows M"
  shows "csr_entries h M = map (\<lambda>i. (i, h (indices M) ! i)) [0..<n_rows M]"
proof -
  have "map (\<lambda>i. map (Pair i) (cols_of_row (h (indptr M)) (h (indices M)) i)) [0..<n_rows M] =
        map (\<lambda>i. [(i, h (indices M) ! i)]) [0..<n_rows M]"
    using assms by (intro map_cong) (simp_all add: cols_of_row_single del: upt_Suc)
  then show ?thesis unfolding csr_entries_def by (simp only: concat_map_singleton)
qed

lemma splits_cover:
  "set (train_idx shuffle) \<union> set (val_idx shuffle) \<union> set (test_idx shuffle) = set shuffle"
proof -
  have "train_idx shuffle @ val_idx shuffle @ test_idx shuffle = shuffle"
  proof -
    have "take 100 (drop 800 shuffle) @ drop 900 shuffle = drop 800 shuffle"
      using append_take_drop_id[of 100 "drop 800 shuffle"] by simp
    then show ?thesis by (simp add: train_idx_def val_idx_def test_idx_def)
  qed
  then have "set (train_idx shuffle @ val_idx shuffle @ test_idx shuffle) = set shuffle" by simp
  then show ?thesis by (simp add: Un_assoc)
qed

section \<open>The returned dictionary\<close>

text \<open>
  Claim C1, as amended. Whenever \<open>forward\<close> returns, the returned dictionary has one
  entry for each node type of \<open>G\<close>, in the order of \<^verbatim>\<open>G.ntypes\<close>, and for every type
  \<open>t\<close> that is the destination of a canonical edge type the returned tensor has shape
  \<open>(number_of_nodes G t, out_size)\<close>. It does return, with exactly the destination types
  as keys, when every node type of \<open>G\<close> is the destination of a canonical edge type, the
  relation names of \<open>G\<close> are pairwise distinct, the layer has a linear map for each of
  them, and the feature dictionary holds a tensor of shape \<open>(number_of_nodes G s, in_size)\<close>
  for every source type \<open>s\<close>.
\<close>

theorem forward_output_types_and_shapes:
  "(forward (HeteroRGCNLayer in_size out_size names init) G feat = Inr (G', out) \<longrightarrow>
      map fst out = ntypes G \<and>
      (\<forall>p\<in>set out. fst p \<in> dst_types G \<longrightarrow> shape (snd p) = (number_of_nodes G (fst p), out_size))) \<and>
   (set (etypes G) \<subseteq> set names \<and> distinct (etypes G) \<and>
    (\<forall>c\<in>set (canonical_etypes G).
       \<exists>x. feat (fst c) = Some x \<and> shape x = (number_of_nodes G (fst c), in_size)) \<and>
    set (ntypes G) = dst_types G \<longrightarrow>
      (\<exists>G2 res. forward (HeteroRGCNLayer in_size out_size names init) G feat = Inr (G2, res) \<and>
         set (map fst res) = dst_types G))"
proof (intro conjI impI)
  assume fw: "forward (HeteroRGCNLayer in_size out_size names init) G feat = Inr (G', out)"
  from forward_partial(1)[OF fw] show "map fst out = ntypes G" .
  from forward_partial(2)[OF fw]
  show "\<forall>p\<in>set out. fst p \<in> dst_types G \<longrightarrow> shape (snd p) = (number_of_nodes G (fst p), out_size)"
    by blast
next
  assume h: "set (etypes G) \<subseteq> set names \<and> distinct (etypes G) \<and>
    (\<forall>c\<in>set (canonical_etypes G).
       \<exists>x. feat (fst c) = Some x \<and> shape x = (number_of_nodes G (fst c), in_size)) \<and>
    set (ntypes G) = dst_types G"
  from h have "\<exists>G2 res. forward (HeteroRGCNLayer in_size out_size names init) G feat = Inr (G2, res) \<and>
           map fst res = ntypes G \<and> set (map fst res) = dst_types G \<and>
           (\<forall>p\<in>set res. shape (snd p) = (number_of_nodes G (fst p), out_size))"
    by (intro forward_total) simp_all
  then show "\<exists>G2 res. forward (HeteroRGCNLayer in_size out_size names init) G feat = Inr (G2, res) \<and>
         set (map fst res) = dst_types G" by blast
qed

theorem forward_output_types_and_shapes_witness:
  "\<exists>G' out. forward (HeteroRGCNLayer 1 2 [''written-by'', ''writing'', ''citing''] double_init)
                acm_small feat_acm = Inr (G', out) \<and>
           map fst out = [''author'', ''paper''] \<and> set (map fst out) = dst_types acm_small \<and>
           map (\<lambda>p. shape (snd p)) out = [(1, 2), (2, 2)]"
proof -
  let ?L = "HeteroRGCNLayer 1 2 [''written-by'', ''writing'', ''citing''] double_init"
  have hyp: "set (etypes acm_small) \<subseteq> set [''written-by'', ''writing'', ''citing''] \<and>
      distinct (etypes acm_small) \<and>
      (\<forall>c\<in>set (canonical_etypes acm_small).
          \<exists>x. feat_acm (fst c) = Some x \<and> shape x = (number_of_nodes acm_small (fst c), 1)) \<and>
      set (ntypes acm_small) = dst_types acm_small"
    by (auto simp: etypes_def acm_small_def feat_acm_def shape_def dst_types_def)
  note inst = forward_output_types_and_shapes[of 1 2 "[''written-by'', ''writing'', ''citing'']"
      double_init acm_small feat_acm]
  from inst hyp obtain G2 res where
    fw: "forward ?L acm_small feat_acm = Inr (G2, res)" and keys: "set (map fst res) = dst_types acm_small"
    by blast
  from forward_output_types_and_shapes[of 1 2 "[''written-by'', ''writing'', ''citing'']"
      double_init acm_small feat_acm G2 res] fw
  have k: "map fst res = ntypes acm_small"
    and sh: "\<forall>p\<in>set res. fst p \<in> dst_types acm_small \<longrightarrow>
               shape (snd p) = (number_of_nodes acm_small (fst p), 2)"
    by blast+
  from k obtain a b where res: "res = [(''author'', a), (''paper'', b)]"
    by (auto simp: acm_small_def map_eq_Cons_conv)
  with sh have shapes: "map (\<lambda>p. shape (snd p)) res = [(1, 2), (2, 2)]"
    by (simp add: dst_types_def acm_small_def)
  from k have names: "map fst res = [''author'', ''paper'']" by (simp add: acm_small_def)
  show ?thesis
  proof (intro exI conjI)
    show "forward ?L acm_small feat_acm = Inr (G2, res)" by (rule fw)
    show "map fst res = [''author'', ''paper'']" by (rule names)
    show "set (map fst res) = dst_types acm_small" by (rule keys)
    show "map (\<lambda>p. shape (snd p)) res = [(1, 2), (2, 2)]" by (rule shapes)
  qed
qed

text \<open>
  The claim as stated fails on the notebook's own \<^verbatim>\<open>ratings\<close> graph, where the users
  are a source type only: the dictionary is built over all of \<^verbatim>\<open>G.ntypes\<close>, so the call
  raises \<^verbatim>\<open>KeyError\<close> on the users' missing \<^verbatim>\<open>h\<close>; and when an \<^verbatim>\<open>h\<close> is already stored
  on the users the call returns an entry for them, although no edge type ends there.
\<close>

theorem forward_output_types_counterexample:
  "forward (HeteroRGCNLayer 2 2 [''+1'', ''-1''] identity_init) ratings feat_S1 = Inl (KeyError ''h'') \<and>
   map_sum id (\<lambda>r. map fst (snd r))
     (forward (HeteroRGCNLayer 2 2 [''+1'', ''-1''] identity_init) ratings_stale feat_S1)
     = Inr [''movie'', ''user''] \<and>
   ''user'' \<notin> dst_types ratings_stale"
  by (simp add: forward_def propagate_def compute_Wh_def linear_forward_def set_n_repr_def
      Wh_name_def linear_row_def dot_def multi_update_all_def to_canonical_etype_def in_msgs_def
      mean_reduce_def zip_tensor_def shape_def HeteroRGCNLayer_def Linear_def identity_init_def
      ratings_def ratings_stale_def feat_S1_def dst_types_def upt_rec)

section \<open>The effect on the graph\<close>

text \<open>
  Claim C9. When \<open>forward\<close> returns, the graph it leaves has the topology it was given
  (node types, node counts, canonical edge types, edge lists). In the feature store only
  the slots \<open>(s, Wh_name r)\<close> and \<open>(d, ''h'')\<close> of the canonical edge types \<open>(s, r, d)\<close> can
  differ from before; all of them are stored after the call, the first holding the
  transformed source feature of its edge type.
\<close>

theorem forward_frame:
  assumes "forward L G feat = Inr (G', out)"
  shows "topology G' = topology G \<and>
         (\<forall>k. k \<notin> Wh_slot ` set (canonical_etypes G) \<union>
                   (\<lambda>c. (snd (snd c), ''h'')) ` set (canonical_etypes G) \<longrightarrow>
              ndata G' k = ndata G k) \<and>
         (\<forall>c\<in>set (canonical_etypes G).
            (\<exists>Wh. compute_Wh L feat c = Inr Wh \<and> ndata G' (Wh_slot c) = Some Wh) \<and>
            ndata G' (snd (snd c), ''h'') \<noteq> None)"
proof -
  from forward_InrD[OF assms] obtain G1 fs aout where
    loop: "forward_loop L feat (canonical_etypes G) G [] = Inr (G1, fs)" and
    app: "apply_funcs G1 fs = Inr aout" and
    w: "write_all Sum aout (remdups (map fst aout)) G1 = Inr G'" by blast
  note keys = fst_aggregates[OF loop app]
  have top: "topology G' = topology G"
    using write_all_topology[OF w] forward_loop_topology[OF loop] by simp
  have frame: "ndata G' k = ndata G k"
    if "k \<notin> Wh_slot ` set (canonical_etypes G) \<union> (\<lambda>c. (snd (snd c), ''h'')) ` set (canonical_etypes G)"
    for k
  proof -
    from that keys have "k \<notin> set (remdups (map fst aout))" by simp
    from write_all_frame[OF w this] forward_loop_frame[OF loop, of k] that show ?thesis by simp
  qed
  have stored: "(\<exists>Wh. compute_Wh L feat c = Inr Wh \<and> ndata G' (Wh_slot c) = Some Wh) \<and>
            ndata G' (snd (snd c), ''h'') \<noteq> None" if c: "c \<in> set (canonical_etypes G)" for c
  proof -
    from forward_loop_stored[OF loop c] obtain Wh where
      Wh: "compute_Wh L feat c = Inr Wh" "ndata G1 (Wh_slot c) = Some Wh" by blast
    from keys have "Wh_slot c \<notin> set (remdups (map fst aout))"
      by (auto simp: Wh_slot_not_h)
    from write_all_frame[OF w this] Wh have 1: "\<exists>Wh. compute_Wh L feat c = Inr Wh \<and> ndata G' (Wh_slot c) = Some Wh"
      by simp
    from keys c have "(snd (snd c), ''h'') \<in> set (remdups (map fst aout))" by auto
    from write_all_written[OF w this] have "ndata G' (snd (snd c), ''h'') \<noteq> None" by auto
    with 1 show ?thesis by simp
  qed
  from top frame stored show ?thesis by blast
qed

theorem forward_frame_witness:
  "case forward (HeteroRGCNLayer 1 1 [''citing''] identity_init) citing_graph (feat_S2 5) of
     Inl e \<Rightarrow> False
   | Inr (G', out) \<Rightarrow>
       topology G' = topology citing_graph \<and>
       ndata G' (''paper'', ''Wh_citing'') = Some (Tensor 1 [[1], [2], [3]]) \<and>
       ndata G' (''paper'', ''h'') \<noteq> None \<and>
       ndata G' (''author'', ''h'') = ndata citing_graph (''author'', ''h'')"
proof -
  let ?L = "HeteroRGCNLayer 1 1 [''citing''] identity_init"
  from citing_forward_returns obtain G' out where
    fw: "forward ?L citing_graph (feat_S2 5) = Inr (G', out)" by blast
  have cets: "canonical_etypes citing_graph = [(''paper'', ''citing'', ''paper'')]"
    by (simp add: citing_graph_def)
  have Wh: "compute_Wh ?L (feat_S2 5) (''paper'', ''citing'', ''paper'') = Inr (Tensor 1 [[1], [2], [3]])"
    by (simp add: layer_eval identity_init_def feat_S2_def)
  from forward_frame[OF fw] cets Wh
  have "topology G' = topology citing_graph"
    and "ndata G' (''paper'', ''Wh_citing'') = Some (Tensor 1 [[1], [2], [3]])"
    and "ndata G' (''paper'', ''h'') \<noteq> None"
    and "ndata G' (''author'', ''h'') = ndata citing_graph (''author'', ''h'')"
    by (simp_all add: Wh_slot_def Wh_name_def)
  with fw show ?thesis by simp
qed

section \<open>Relation isolation\<close>

text \<open>
  Claim C7. On a graph whose only canonical edge type is \<open>(s, r, d)\<close>, one pass of the
  layer reads the feature dictionary at \<open>s\<close> only: two dictionaries that agree on \<open>s\<close> give
  the same result (the same error, or the same graph and the same returned dictionary),
  whatever they hold for the other types.
\<close>

theorem relation_isolation:
  assumes "canonical_etypes G = [(s, r, d)]" and "feat1 s = feat2 s"
  shows "forward L G feat1 = forward L G feat2"
proof -
  have "forward_loop L feat1 (canonical_etypes G) G [] = forward_loop L feat2 (canonical_etypes G) G []"
    by (rule forward_loop_cong) (simp add: assms)
  then show ?thesis by (simp add: forward_def propagate_def)
qed

theorem relation_isolation_witness:
  "feat_S2 5 ''author'' \<noteq> feat_S2 7 ''author'' \<and>
   forward (HeteroRGCNLayer 1 1 [''citing''] identity_init) citing_graph (feat_S2 5) =
   forward (HeteroRGCNLayer 1 1 [''citing''] identity_init) citing_graph (feat_S2 7)"
proof -
  have "canonical_etypes citing_graph = [(''paper'', ''citing'', ''paper'')]"
    by (simp add: citing_graph_def)
  moreover have "feat_S2 5 ''paper'' = feat_S2 7 ''paper''"
    by (simp add: feat_S2_def)
  ultimately have
    "forward (HeteroRGCNLayer 1 1 [''citing''] identity_init) citing_graph (feat_S2 5) =
     forward (HeteroRGCNLayer 1 1 [''citing''] identity_init) citing_graph (feat_S2 7)"
    by (rule relation_isolation)
  then show ?thesis by (simp add: feat_S2_def)
qed


section \<open>The scratch feature of a relation\<close>

text \<open>
  Claim C2, as amended. In the loop of \<open>forward\<close> the transformed source feature of a
  canonical edge type \<open>(s, r, d)\<close> is stored on the source type \<open>s\<close> under the name
  \<open>Wh_name r\<close>, which is made from the relation name alone. Two canonical edge types of
  the graph use the same slot exactly when they have the same source type and the same
  relation name; their transformed features are then the same tensor, and when the loop
  is over every canonical edge type finds its own transformed feature in its slot.
\<close>

theorem Wh_slot_per_source_and_relation:
  assumes "forward_loop L feat (canonical_etypes G) G [] = Inr (G1, fs)"
    and "c \<in> set (canonical_etypes G)" and "c' \<in> set (canonical_etypes G)"
  shows "(Wh_slot c = Wh_slot c' \<longleftrightarrow> fst c = fst c' \<and> fst (snd c) = fst (snd c')) \<and>
         (\<exists>Wh Wh'. compute_Wh L feat c = Inr Wh \<and> ndata G1 (Wh_slot c) = Some Wh \<and>
                    compute_Wh L feat c' = Inr Wh' \<and> ndata G1 (Wh_slot c') = Some Wh')"
proof -
  have "Wh_slot c = Wh_slot c' \<longleftrightarrow> fst c = fst c' \<and> fst (snd c) = fst (snd c')"
    by (simp add: Wh_slot_def Wh_name_inj)
  moreover from forward_loop_stored[OF assms(1,2)] forward_loop_stored[OF assms(1,3)]
  have "\<exists>Wh Wh'. compute_Wh L feat c = Inr Wh \<and> ndata G1 (Wh_slot c) = Some Wh \<and>
                    compute_Wh L feat c' = Inr Wh' \<and> ndata G1 (Wh_slot c') = Some Wh'"
    by blast
  ultimately show ?thesis by blast
qed

theorem Wh_slot_per_source_and_relation_witness:
  "case forward_loop (HeteroRGCNLayer 1 1 [''rates''] double_init) feat_reviews
          (canonical_etypes reviews) reviews [] of
     Inl e \<Rightarrow> False
   | Inr (G1, fs) \<Rightarrow>
       Wh_slot (''user'', ''rates'', ''movie'') = Wh_slot (''user'', ''rates'', ''book'') \<and>
       ndata G1 (Wh_slot (''user'', ''rates'', ''movie'')) = Some (Tensor 1 [[3], [5]]) \<and>
       ndata G1 (Wh_slot (''user'', ''rates'', ''book'')) = Some (Tensor 1 [[3], [5]])"
proof -
  let ?L = "HeteroRGCNLayer 1 1 [''rates''] double_init"
  from reviews_loop_returns obtain G1 fs where
    loop: "forward_loop ?L feat_reviews (canonical_etypes reviews) reviews [] = Inr (G1, fs)"
    by blast
  have m: "(''user'', ''rates'', ''movie'') \<in> set (canonical_etypes reviews)"
    and b: "(''user'', ''rates'', ''book'') \<in> set (canonical_etypes reviews)"
    by (simp_all add: reviews_def)
  have Wh: "compute_Wh ?L feat_reviews (''user'', ''rates'', ''movie'') = Inr (Tensor 1 [[3], [5]])"
    "compute_Wh ?L feat_reviews (''user'', ''rates'', ''book'') = Inr (Tensor 1 [[3], [5]])"
    by (simp_all add: layer_eval double_init_def feat_reviews_def)
  from Wh_slot_per_source_and_relation[OF loop m b] Wh
  have "Wh_slot (''user'', ''rates'', ''movie'') = Wh_slot (''user'', ''rates'', ''book'') \<and>
       ndata G1 (Wh_slot (''user'', ''rates'', ''movie'')) = Some (Tensor 1 [[3], [5]]) \<and>
       ndata G1 (Wh_slot (''user'', ''rates'', ''book'')) = Some (Tensor 1 [[3], [5]])"
    by simp
  with loop show ?thesis by simp
qed

text \<open>
  The name is not unique per canonical edge type: two different canonical edge types
  with the same source type and relation name write the same slot, and two with
  different source types still share the name.
\<close>

theorem Wh_slot_unique_counterexample:
  "(''user'', ''rates'', ''movie'') \<noteq> (''user'', ''rates'', ''book'') \<and>
   Wh_slot (''user'', ''rates'', ''movie'') = Wh_slot (''user'', ''rates'', ''book'') \<and>
   Wh_name (fst (snd (''user'', ''rates'', ''movie''))) = Wh_name (fst (snd (''critic'', ''rates'', ''movie'')))"
  by (simp add: Wh_slot_def)

section \<open>One weight for a relation name\<close>

text \<open>
  Claim C6. The layer owns one linear map for each relation name. For two canonical
  edge types \<open>(s1, r, d1)\<close> and \<open>(s2, r, d2)\<close> with the same relation name, the
  features that the loop stores for message passing are both produced by the linear map of
  \<open>r\<close>, whatever its entries \<open>init r\<close> are: changing the entries of that one map changes
  the messages of both edge types by the same map.
\<close>

theorem weight_shared_by_relation_name:
  assumes loop: "forward_loop (HeteroRGCNLayer in_size out_size names init) feat
                   (canonical_etypes G) G [] = Inr (G1, fs)"
    and c1: "(s1, r, d1) \<in> set (canonical_etypes G)"
    and c2: "(s2, r, d2) \<in> set (canonical_etypes G)"
  shows "\<exists>x1 x2 Wh1 Wh2.
           feat s1 = Some x1 \<and> feat s2 = Some x2 \<and>
           linear_forward (Linear in_size out_size (fst (init r)) (snd (init r))) x1 = Inr Wh1 \<and>
           linear_forward (Linear in_size out_size (fst (init r)) (snd (init r))) x2 = Inr Wh2 \<and>
           ndata G1 (s1, Wh_name r) = Some Wh1 \<and> ndata G1 (s2, Wh_name r) = Some Wh2"
proof -
  let ?lin = "Linear in_size out_size (fst (init r)) (snd (init r))"
  have one: "\<exists>x Wh. feat s = Some x \<and> linear_forward ?lin x = Inr Wh \<and> ndata G1 (s, Wh_name r) = Some Wh"
    if "(s, r, d) \<in> set (canonical_etypes G)" for s d
  proof -
    from forward_loop_stored[OF loop that] obtain Wh where
      "compute_Wh (HeteroRGCNLayer in_size out_size names init) feat (s, r, d) = Inr Wh"
      "ndata G1 (s, Wh_name r) = Some Wh" by (auto simp: Wh_slot_def)
    then show ?thesis
      by (auto simp: compute_Wh_def weight_HeteroRGCNLayer split: option.splits if_splits)
  qed
  from one[OF c1] one[OF c2] show ?thesis by blast
qed

theorem weight_shared_by_relation_name_witness:
  "case forward_loop (HeteroRGCNLayer 1 1 [''rates''] double_init) feat_reviews
          (canonical_etypes reviews) reviews [] of
     Inl e \<Rightarrow> False
   | Inr (G1, fs) \<Rightarrow>
       ndata G1 (''user'', Wh_name ''rates'') = Some (Tensor 1 [[3], [5]]) \<and>
       ndata G1 (''critic'', Wh_name ''rates'') = Some (Tensor 1 [[7]])"
proof -
  let ?L = "HeteroRGCNLayer 1 1 [''rates''] double_init"
  from reviews_loop_returns obtain G1 fs where
    loop: "forward_loop ?L feat_reviews (canonical_etypes reviews) reviews [] = Inr (G1, fs)"
    by blast
  have m: "(''user'', ''rates'', ''movie'') \<in> set (canonical_etypes reviews)"
    and b: "(''critic'', ''rates'', ''movie'') \<in> set (canonical_etypes reviews)"
    by (simp_all add: reviews_def)
  from weight_shared_by_relation_name[OF loop m b]
  have "ndata G1 (''user'', Wh_name ''rates'') = Some (Tensor 1 [[3], [5]]) \<and>
        ndata G1 (''critic'', Wh_name ''rates'') = Some (Tensor 1 [[7]])"
    by (auto simp: feat_reviews_def double_init_def linear_forward_def Linear_def linear_row_def
        dot_def upt_rec)
  with loop show ?thesis by simp
qed

section \<open>Destinations without messages\<close>

text \<open>
  Claim C4. The per-relation mean aggregate, at a destination node that no edge of the
  relation enters, is the zero vector with the width of the source feature (the mean of no
  message is defined as zero, it is not a division by zero). On the citation graph with
  three papers and the single edge from paper 0 to paper 1, identity weights, zero bias and
  the feature \<open>[[1], [2], [3]]\<close>, one pass of the layer returns \<open>[[0], [1], [0]]\<close> for the
  papers.
\<close>

theorem isolated_destination_zero:
  "(update_rel G c (copy_u src m, fn_mean m' dst) = Inr A \<longrightarrow>
      v < number_of_nodes G (snd (snd c)) \<longrightarrow> (\<forall>e\<in>set (edges G c). snd e \<noteq> v) \<longrightarrow>
      (\<exists>x. ndata G (fst c, src) = Some x \<and> rows A ! v = replicate (ncols x) 0)) \<and>
   map_sum id snd (forward (HeteroRGCNLayer 1 1 [''citing''] identity_init) citing_graph (feat_S2 a))
     = Inr [(''paper'', Tensor 1 [[0], [1], [0]])]"
proof
  show "update_rel G c (copy_u src m, fn_mean m' dst) = Inr A \<longrightarrow>
      v < number_of_nodes G (snd (snd c)) \<longrightarrow> (\<forall>e\<in>set (edges G c). snd e \<noteq> v) \<longrightarrow>
      (\<exists>x. ndata G (fst c, src) = Some x \<and> rows A ! v = replicate (ncols x) 0)"
  proof (intro impI)
    assume u: "update_rel G c (copy_u src m, fn_mean m' dst) = Inr A"
      and v: "v < number_of_nodes G (snd (snd c))" and iso: "\<forall>e\<in>set (edges G c). snd e \<noteq> v"
    from update_rel_Inr[OF u] obtain x where
      x: "ndata G (fst c, src) = Some x"
      and A: "A = Tensor (ncols x)
                   (map (\<lambda>v. mean_reduce (ncols x) (in_msgs (edges G c) x v))
                      [0..<number_of_nodes G (snd (snd c))])" by blast
    from iso have "in_msgs (edges G c) x v = []"
      by (auto simp: in_msgs_def filter_empty_conv)
    with A v have "rows A ! v = replicate (ncols x) 0" by (simp add: mean_reduce_def)
    with x show "\<exists>x. ndata G (fst c, src) = Some x \<and> rows A ! v = replicate (ncols x) 0" by blast
  qed
  show "map_sum id snd (forward (HeteroRGCNLayer 1 1 [''citing''] identity_init) citing_graph (feat_S2 a))
     = Inr [(''paper'', Tensor 1 [[0], [1], [0]])]"
    by (simp add: layer_eval identity_init_def citing_graph_def feat_S2_def)
qed

theorem isolated_destination_zero_witness:
  "\<exists>A. update_rel citing_loaded (''paper'', ''citing'', ''paper'')
          (copy_u ''Wh_citing'' ''m'', fn_mean ''m'' ''h'') = Inr A \<and>
       rows A ! 0 = [0] \<and> rows A ! 1 = [1] \<and> rows A ! 2 = [0]"
proof -
  let ?c = "(''paper'', ''citing'', ''paper'')"
  obtain A where A: "update_rel citing_loaded ?c (copy_u ''Wh_citing'' ''m'', fn_mean ''m'' ''h'') = Inr A"
    by (simp add: citing_loaded_def)
  have e: "edges citing_loaded ?c = [(0, 1)]" and n: "number_of_nodes citing_loaded ''paper'' = 3"
    by (simp_all add: citing_loaded_def citing_graph_def)
  from isolated_destination_zero[of citing_loaded ?c "''Wh_citing''" "''m''" "''m''" "''h''" A 0] A e n
  have "rows A ! 0 = [0]" by (auto simp: citing_loaded_def)
  moreover
  from isolated_destination_zero[of citing_loaded ?c "''Wh_citing''" "''m''" "''m''" "''h''" A 2] A e n
  have "rows A ! 2 = [0]" by (auto simp: citing_loaded_def)
  moreover from A have "rows A ! 1 = [1]"
    by (auto simp: citing_loaded_def citing_graph_def in_msgs_def mean_reduce_def upt_rec)
  ultimately show ?thesis using A by blast
qed

section \<open>Sum across relations\<close>

text \<open>
  Claim C5, as amended. With the cross reducer \<open>Sum\<close>, \<open>multi_update_all\<close> stores for
  every destination key that received an aggregate a tensor with one row per destination
  node, whose entry at node \<open>v\<close> and column \<open>j\<close> is the sum, over the relations in
  \<open>funcs\<close> that end at this key, of the entries at \<open>v\<close> and \<open>j\<close> of their per-relation mean
  aggregates (the list \<open>aout\<close> holds, relation by relation, the aggregate that
  \<open>update_rel\<close> computes). On the user-movie graph of scenario S1 with identity weights
  the stored feature of the movies is \<open>[[1/2, 1/2], [2, 1]]\<close>.
\<close>

theorem sum_of_relations:
  "(multi_update_all G fs Sum = Inr G' \<longrightarrow> apply_funcs G fs = Inr aout \<longrightarrow> k \<in> fst ` set aout \<longrightarrow>
      list_all2 (\<lambda>p q. \<exists>c. to_canonical_etype G (fst p) = Inr c \<and>
                         update_rel G c (snd p) = Inr (snd q) \<and>
                         fst q = (snd (snd c), out_field (snd p))) fs aout \<and>
      (\<exists>T. ndata G' k = Some T \<and> length (rows T) = number_of_nodes G (fst k) \<and>
           (\<forall>A\<in>set (map snd (filter (\<lambda>q. fst q = k) aout)). ncols A = ncols T) \<and>
           (\<forall>v<length (rows T). \<forall>j<ncols T.
              rows T ! v ! j = (\<Sum>A\<leftarrow>map snd (filter (\<lambda>q. fst q = k) aout). rows A ! v ! j)))) \<and>
   map_sum id (\<lambda>G2. ndata G2 (''movie'', ''h''))
     (propagate (HeteroRGCNLayer 2 2 [''+1'', ''-1''] identity_init) ratings feat_S1)
     = Inr (Some (Tensor 2 [[1 / 2, 1 / 2], [2, 1]]))"
proof
  show "multi_update_all G fs Sum = Inr G' \<longrightarrow> apply_funcs G fs = Inr aout \<longrightarrow> k \<in> fst ` set aout \<longrightarrow>
      list_all2 (\<lambda>p q. \<exists>c. to_canonical_etype G (fst p) = Inr c \<and>
                         update_rel G c (snd p) = Inr (snd q) \<and>
                         fst q = (snd (snd c), out_field (snd p))) fs aout \<and>
      (\<exists>T. ndata G' k = Some T \<and> length (rows T) = number_of_nodes G (fst k) \<and>
           (\<forall>A\<in>set (map snd (filter (\<lambda>q. fst q = k) aout)). ncols A = ncols T) \<and>
           (\<forall>v<length (rows T). \<forall>j<ncols T.
              rows T ! v ! j = (\<Sum>A\<leftarrow>map snd (filter (\<lambda>q. fst q = k) aout). rows A ! v ! j)))"
  proof (intro impI)
    assume mua: "multi_update_all G fs Sum = Inr G'" and app: "apply_funcs G fs = Inr aout"
      and k: "k \<in> fst ` set aout"
    note rel = apply_funcs_rel[OF app]
    from multi_update_all_Inr[OF mua] app k obtain T where
      T: "fold_tensors (+) (map snd (filter (\<lambda>q. fst q = k) aout)) = Inr T"
      and st: "ndata G' k = Some T" by auto
    have each: "length (rows A) = number_of_nodes G (fst k) \<and> wf_tensor A"
      if "A \<in> set (map snd (filter (\<lambda>q. fst q = k) aout))" for A
    proof -
      from that obtain q where q: "q \<in> set aout" "fst q = k" "snd q = A" by auto
      from list_all2_right[OF rel q(1)] obtain p where
        "\<exists>c. to_canonical_etype G (fst p) = Inr c \<and> update_rel G c (snd p) = Inr (snd q) \<and>
             fst q = (snd (snd c), out_field (snd p))" by (rule bexE)
      then obtain c where
        "update_rel G c (snd p) = Inr (snd q)" "fst q = (snd (snd c), out_field (snd p))"
        by (elim exE conjE)
      with update_rel_any_shape[of G c "snd p" "snd q"] q show ?thesis by auto
    qed
    from fold_tensors_Inr[OF T] obtain A where
      A: "A \<in> set (map snd (filter (\<lambda>q. fst q = k) aout))" "shape A = shape T"
      by (metis last_in_set)
    with each[OF A(1)] have len: "length (rows T) = number_of_nodes G (fst k)"
      by (simp add: shape_def)
    from fold_tensors_sum[OF T] each
    have "\<forall>v<length (rows T). \<forall>j<ncols T.
              rows T ! v ! j = (\<Sum>A\<leftarrow>map snd (filter (\<lambda>q. fst q = k) aout). rows A ! v ! j)"
      by blast
    moreover from fold_tensors_Inr[OF T]
    have "\<forall>A\<in>set (map snd (filter (\<lambda>q. fst q = k) aout)). ncols A = ncols T"
      by (simp add: shape_def)
    ultimately show "list_all2 (\<lambda>p q. \<exists>c. to_canonical_etype G (fst p) = Inr c \<and>
                         update_rel G c (snd p) = Inr (snd q) \<and>
                         fst q = (snd (snd c), out_field (snd p))) fs aout \<and>
      (\<exists>T. ndata G' k = Some T \<and> length (rows T) = number_of_nodes G (fst k) \<and>
           (\<forall>A\<in>set (map snd (filter (\<lambda>q. fst q = k) aout)). ncols A = ncols T) \<and>
           (\<forall>v<length (rows T). \<forall>j<ncols T.
              rows T ! v ! j = (\<Sum>A\<leftarrow>map snd (filter (\<lambda>q. fst q = k) aout). rows A ! v ! j)))"
      using rel st len by blast
  qed
  show "map_sum id (\<lambda>G2. ndata G2 (''movie'', ''h''))
     (propagate (HeteroRGCNLayer 2 2 [''+1'', ''-1''] identity_init) ratings feat_S1)
     = Inr (Some (Tensor 2 [[1 / 2, 1 / 2], [2, 1]]))"
    by (simp add: layer_eval identity_init_def ratings_def feat_S1_def numeral_2_eq_2)
qed

theorem sum_of_relations_witness:
  "case multi_update_all ratings_loaded funcs_S1 Sum of
     Inl e \<Rightarrow> False
   | Inr G' \<Rightarrow>
       (\<exists>T. ndata G' (''movie'', ''h'') = Some T \<and> length (rows T) = 2 \<and>
            rows T ! 0 ! 1 = 1 / 2 + 0 \<and> rows T ! 1 ! 0 = 1 + 1)"
proof -
  let ?aout = "[((''movie'', ''h''), Tensor 2 [[1 / 2, 1 / 2], [1, 0]]),
                ((''movie'', ''h''), Tensor 2 [[0, 0], [1, 1]])]"
  from ratings_loaded_returns obtain G' where
    mua: "multi_update_all ratings_loaded funcs_S1 Sum = Inr G'" by blast
  have app: "apply_funcs ratings_loaded funcs_S1 = Inr ?aout"
    by (simp add: layer_eval ratings_loaded_def ratings_def funcs_S1_def numeral_2_eq_2)
  have k: "(''movie'', ''h'') \<in> fst ` set ?aout" by simp
  from sum_of_relations[of ratings_loaded funcs_S1 G' ?aout "(''movie'', ''h'')"] mua app k
  obtain T where st: "ndata G' (''movie'', ''h'') = Some T"
    and len: "length (rows T) = number_of_nodes ratings_loaded ''movie''"
    and nc: "\<forall>A\<in>set (map snd (filter (\<lambda>q. fst q = (''movie'', ''h'')) ?aout)). ncols A = ncols T"
    and vals: "\<forall>v<length (rows T). \<forall>j<ncols T.
              rows T ! v ! j = (\<Sum>A\<leftarrow>map snd (filter (\<lambda>q. fst q = (''movie'', ''h'')) ?aout). rows A ! v ! j)"
    by auto
  from len have len2: "length (rows T) = 2" by (simp add: ratings_loaded_def ratings_def)
  from nc have nc2: "ncols T = 2" by simp
  from vals len2 nc2 have "rows T ! 0 ! 1 = 1 / 2 + 0" "rows T ! 1 ! 0 = 1 + 1" by simp_all
  with st len2 mua show ?thesis by simp
qed

text \<open>
  The value that the scenario gives for the second movie, \<open>[3/2, 3/2]\<close>, is not what the
  layer computes: the movie receives \<open>[1, 0]\<close> from its one \<^verbatim>\<open>+1\<close> edge and \<open>[1, 1]\<close>
  from its one \<^verbatim>\<open>-1\<close> edge, and their sum is \<open>[2, 1]\<close>.
\<close>

theorem sum_of_relations_counterexample:
  "map_sum id (\<lambda>G2. map_option (\<lambda>T. rows T ! 1) (ndata G2 (''movie'', ''h'')))
     (propagate (HeteroRGCNLayer 2 2 [''+1'', ''-1''] identity_init) ratings feat_S1)
     = Inr (Some [2, 1]) \<and>
   map_sum id (\<lambda>G2. map_option (\<lambda>T. rows T ! 1) (ndata G2 (''movie'', ''h'')))
     (propagate (HeteroRGCNLayer 2 2 [''+1'', ''-1''] identity_init) ratings feat_S1)
     \<noteq> Inr (Some [3 / 2, 3 / 2])"
  by (simp add: layer_eval identity_init_def ratings_def feat_S1_def numeral_2_eq_2)

section \<open>The stacked model\<close>

text \<open>
  Claim C8, as amended. Whenever \<open>HeteroRGCN_forward\<close> returns, the first layer has
  mapped the embeddings to a dictionary \<open>h1\<close>, every entry of every tensor of \<open>h1\<close> has
  been replaced by itself when it is not negative and by its hundredth when it is (a leaky
  ReLU of slope 0.01), the second layer has mapped the result to \<open>h2\<close>, and the value
  returned is \<open>h2\<close> at \<^verbatim>\<open>paper\<close>; when \<^verbatim>\<open>paper\<close> is the destination of a canonical edge
  type, this tensor has shape \<open>(number_of_nodes G ''paper'', out_size)\<close>. The call does
  return, with a tensor of that shape, when the relation names of \<open>G\<close> are pairwise
  distinct and every node type of \<open>G\<close>, \<^verbatim>\<open>paper\<close> among them, is the destination of a
  canonical edge type (as in the notebook's graph).
\<close>

theorem HeteroRGCN_forward_result:
  "(HeteroRGCN_forward (HeteroRGCN G in_size hidden_size out_size E init1 init2) G = Inr (G', logits) \<longrightarrow>
      (\<exists>G1 h1 h2.
           forward (HeteroRGCNLayer in_size hidden_size (etypes G) init1) G
             (map_of (map (\<lambda>t. (t, Parameter (number_of_nodes G t) in_size (E t))) (ntypes G)))
             = Inr (G1, h1) \<and>
           forward (HeteroRGCNLayer hidden_size out_size (etypes G) init2) G1
             (map_of (map (\<lambda>p. (fst p, Tensor (ncols (snd p))
                                       (map (map (\<lambda>x. if x < 0 then x / 100 else x)) (rows (snd p))))) h1))
             = Inr (G', h2) \<and>
           map_of h2 ''paper'' = Some logits \<and>
           (''paper'' \<in> dst_types G \<longrightarrow> shape logits = (number_of_nodes G ''paper'', out_size)))) \<and>
   (distinct (etypes G) \<and> src_types G \<subseteq> set (ntypes G) \<and> set (ntypes G) = dst_types G \<and>
    ''paper'' \<in> set (ntypes G) \<longrightarrow>
      (\<exists>G1 h1 G2 h2 res.
           forward (HeteroRGCNLayer in_size hidden_size (etypes G) init1) G
             (map_of (map (\<lambda>t. (t, Parameter (number_of_nodes G t) in_size (E t))) (ntypes G)))
             = Inr (G1, h1) \<and>
           forward (HeteroRGCNLayer hidden_size out_size (etypes G) init2) G1
             (map_of (map (\<lambda>p. (fst p, Tensor (ncols (snd p))
                                       (map (map (\<lambda>x. if x < 0 then x / 100 else x)) (rows (snd p))))) h1))
             = Inr (G2, h2) \<and>
           map_of h2 ''paper'' = Some res \<and>
           HeteroRGCN_forward (HeteroRGCN G in_size hidden_size out_size E init1 init2) G
             = Inr (G2, res) \<and>
           shape res = (number_of_nodes G ''paper'', out_size)))"
proof (intro conjI impI)
  assume "HeteroRGCN_forward (HeteroRGCN G in_size hidden_size out_size E init1 init2) G = Inr (G', logits)"
  then show "\<exists>G1 h1 h2.
           forward (HeteroRGCNLayer in_size hidden_size (etypes G) init1) G
             (map_of (map (\<lambda>t. (t, Parameter (number_of_nodes G t) in_size (E t))) (ntypes G)))
             = Inr (G1, h1) \<and>
           forward (HeteroRGCNLayer hidden_size out_size (etypes G) init2) G1
             (map_of (map (\<lambda>p. (fst p, Tensor (ncols (snd p))
                                       (map (map (\<lambda>x. if x < 0 then x / 100 else x)) (rows (snd p))))) h1))
             = Inr (G', h2) \<and>
           map_of h2 ''paper'' = Some logits \<and>
           (''paper'' \<in> dst_types G \<longrightarrow> shape logits = (number_of_nodes G ''paper'', out_size))"
    by (rule HeteroRGCN_forward_partial)
next
  assume h: "distinct (etypes G) \<and> src_types G \<subseteq> set (ntypes G) \<and> set (ntypes G) = dst_types G \<and>
    ''paper'' \<in> set (ntypes G)"
  then show "\<exists>G1 h1 G2 h2 res.
           forward (HeteroRGCNLayer in_size hidden_size (etypes G) init1) G
             (map_of (map (\<lambda>t. (t, Parameter (number_of_nodes G t) in_size (E t))) (ntypes G)))
             = Inr (G1, h1) \<and>
           forward (HeteroRGCNLayer hidden_size out_size (etypes G) init2) G1
             (map_of (map (\<lambda>p. (fst p, Tensor (ncols (snd p))
                                       (map (map (\<lambda>x. if x < 0 then x / 100 else x)) (rows (snd p))))) h1))
             = Inr (G2, h2) \<and>
           map_of h2 ''paper'' = Some res \<and>
           HeteroRGCN_forward (HeteroRGCN G in_size hidden_size out_size E init1 init2) G
             = Inr (G2, res) \<and>
           shape res = (number_of_nodes G ''paper'', out_size)"
    by (intro HeteroRGCN_forward_total) auto
qed

theorem HeteroRGCN_forward_result_witness:
  "\<exists>G2 res. HeteroRGCN_forward (HeteroRGCN acm_small 1 1 1 embed_init negate_init double_init) acm_small
               = Inr (G2, res) \<and>
            shape res = (2, 1)"
proof -
  have hyp: "distinct (etypes acm_small) \<and> src_types acm_small \<subseteq> set (ntypes acm_small) \<and>
      set (ntypes acm_small) = dst_types acm_small \<and> ''paper'' \<in> set (ntypes acm_small)"
    by (auto simp: etypes_def src_types_def dst_types_def acm_small_def)
  from HeteroRGCN_forward_result[of acm_small 1 1 1 embed_init negate_init double_init] hyp
  obtain G2 res where
    run: "HeteroRGCN_forward (HeteroRGCN acm_small 1 1 1 embed_init negate_init double_init) acm_small
            = Inr (G2, res)"
    and sh: "shape res = (number_of_nodes acm_small ''paper'', 1)"
    by blast
  have paper: "''paper'' \<in> dst_types acm_small" by (simp add: dst_types_def acm_small_def)
  from HeteroRGCN_forward_result[of acm_small 1 1 1 embed_init negate_init double_init G2 res] run paper
  have "shape res = (number_of_nodes acm_small ''paper'', 1)" by blast
  then have "shape res = (2, 1)" by (simp add: acm_small_def)
  with run show ?thesis by blast
qed

text \<open>
  Without these provisos the claim fails. On the notebook's \<^verbatim>\<open>ratings\<close> graph the first
  layer raises \<^verbatim>\<open>KeyError\<close> and nothing is returned. On a graph where the papers are a
  source type only and carry an older \<^verbatim>\<open>h\<close> of width 1, the model with \<open>out_size = 2\<close>
  returns that older tensor, of shape \<open>(2, 1)\<close>, not \<open>(2, 2)\<close>.
\<close>

theorem HeteroRGCN_forward_result_counterexample:
  "HeteroRGCN_forward (HeteroRGCN ratings 2 2 2 embed_init identity_init identity_init) ratings
     = Inl (KeyError ''h'') \<and>
   map_sum id (\<lambda>r. shape (snd r))
     (HeteroRGCN_forward (HeteroRGCN authorship_stale 1 1 2 embed_init identity_init identity_init)
        authorship_stale) = Inr (2, 1) \<and>
   map_sum id (\<lambda>r. shape (snd r))
     (HeteroRGCN_forward (HeteroRGCN authorship_stale 1 1 2 embed_init identity_init identity_init)
        authorship_stale) \<noteq> Inr (number_of_nodes authorship_stale ''paper'', 2)"
  by (simp add: HeteroRGCN_forward_def HeteroRGCN_def Parameter_def activate_def map_tensor_def
      leaky_relu_def etypes_def layer_eval ratings_def authorship_stale_def embed_init_def
      identity_init_def numeral_2_eq_2)

section \<open>Labels of the split indices\<close>

text \<open>
  Claim C3, as amended. Let the CSR matrix \<^verbatim>\<open>pvc\<close> be well formed and store exactly one
  conference for every paper (its \<^verbatim>\<open>indptr\<close> is \<open>0, 1, \<dots>, n_rows\<close>), and let
  \<^verbatim>\<open>shuffle\<close> be a permutation of \<^verbatim>\<open>pid\<close>. Then the train, validation and test indices
  are together exactly the papers whose conference is one of the selected three, so a paper
  of another conference has no label that the splits use; and for every such index \<open>i\<close>
  the entry \<^verbatim>\<open>labels[i]\<close> exists, is the class of the conference of paper \<open>i\<close> (KDD 0,
  ICML 1, VLDB 2) and lies in \<open>{0, 1, 2}\<close>.
\<close>

theorem labels_of_split_indices:
  assumes wf: "wf_csr h pvc"
    and one: "h (indptr pvc) = [0..<Suc (n_rows pvc)]"
    and perm: "mset shuffle = mset (pid (generate_labels h pvc))"
  shows "set (train_idx shuffle) \<union> set (val_idx shuffle) \<union> set (test_idx shuffle) =
           {i. i < n_rows pvc \<and> h (indices pvc) ! i \<in> set c_selected} \<and>
         (\<forall>i\<in>set (train_idx shuffle) \<union> set (val_idx shuffle) \<union> set (test_idx shuffle).
            \<exists>c k. cols_of_row (h (indptr pvc)) (h (indices pvc)) i = [c] \<and> c \<in> set c_selected \<and>
                  class_id c = Some k \<and> k \<in> {0, 1, 2} \<and>
                  label_at (labels (generate_labels h pvc)) i = Inr k)"
proof -
  let ?idx = "h (indices pvc)" and ?n = "n_rows pvc"
  from wf one have len: "length ?idx = ?n" by (simp add: wf_csr_def del: upt_Suc)
  have "pid (generate_labels h pvc) = filter (\<lambda>i. ?idx ! i \<in> set c_selected) [0..<?n]"
    by (simp add: generate_labels_simps selected_rows_def csr_entries_single[OF one len]
        filter_map comp_def)
  with mset_eq_setD[OF perm] splits_cover[of shuffle]
  have cover: "set (train_idx shuffle) \<union> set (val_idx shuffle) \<union> set (test_idx shuffle) =
           {i. i < ?n \<and> ?idx ! i \<in> set c_selected}" by auto
  have "\<exists>c k. cols_of_row (h (indptr pvc)) ?idx i = [c] \<and> c \<in> set c_selected \<and>
                  class_id c = Some k \<and> k \<in> {0, 1, 2} \<and>
                  label_at (labels (generate_labels h pvc)) i = Inr k"
    if "i < ?n" "?idx ! i \<in> set c_selected" for i
  proof -
    from that(1) len one have "cols_of_row (h (indptr pvc)) ?idx i = [?idx ! i]"
      by (simp add: cols_of_row_single del: upt_Suc)
    moreover from that len have "\<exists>k. class_id (?idx ! i) = Some k \<and> k \<in> {0, 1, 2} \<and>
        label_at (labels (generate_labels h pvc)) i = Inr k"
      by (auto simp: generate_labels_simps label_at_def class_id_def c_selected_def)
    ultimately show ?thesis using that(2) by auto
  qed
  with cover show ?thesis by blast
qed

theorem labels_of_split_indices_witness:
  "set (train_idx [3, 0, 2]) \<union> set (val_idx [3, 0, 2]) \<union> set (test_idx [3, 0, 2]) =
     {i. i < n_rows (pvc_matrix 4) \<and> store_one (indices (pvc_matrix 4)) ! i \<in> set c_selected} \<and>
   label_at (labels (generate_labels store_one (pvc_matrix 4))) 3 = Inr 1 \<and>
   label_at (labels (generate_labels store_one (pvc_matrix 4))) 0 = Inr 2 \<and>
   label_at (labels (generate_labels store_one (pvc_matrix 4))) 2 = Inr 0 \<and>
   1 \<notin> set (train_idx [3, 0, 2]) \<union> set (val_idx [3, 0, 2]) \<union> set (test_idx [3, 0, 2])"
proof -
  have wf: "wf_csr store_one (pvc_matrix 4)"
    by (simp add: wf_csr_def store_one_def pvc_matrix_def)
  have one: "store_one (indptr (pvc_matrix 4)) = [0..<Suc (n_rows (pvc_matrix 4))]"
    by (simp add: store_one_def pvc_matrix_def upt_rec)
  have perm: "mset [3, 0, 2] = mset (pid (generate_labels store_one (pvc_matrix 4)))"
    by (simp add: generate_labels_def masked_assign_def selected_rows_def csr_entries_def
        cols_of_row_def store_one_def pvc_matrix_def c_selected_def upt_rec
        numeral_2_eq_2 numeral_3_eq_3)
  from labels_of_split_indices[OF wf one perm]
  have "set (train_idx [3, 0, 2]) \<union> set (val_idx [3, 0, 2]) \<union> set (test_idx [3, 0, 2]) =
     {i. i < n_rows (pvc_matrix 4) \<and> store_one (indices (pvc_matrix 4)) ! i \<in> set c_selected}"
    by blast
  then show ?thesis
    by (simp add: generate_labels_def masked_assign_def label_at_def store_one_def pvc_matrix_def
        train_idx_def val_idx_def test_idx_def c_selected_def)
qed

text \<open>
  Without the proviso the claim fails: \<^verbatim>\<open>labels\<close> is indexed by the position of an entry
  in \<^verbatim>\<open>pvc.indices\<close>, not by the paper. In a well-formed matrix where paper 0 has no
  conference, paper 1 is a VLDB paper (class 2) and paper 2 a KDD paper, the split indices
  are 1 and 2; \<^verbatim>\<open>labels[1]\<close> is 0, the class of paper 2, and \<^verbatim>\<open>labels[2]\<close> is out of
  range.
\<close>

theorem labels_of_split_indices_counterexample:
  "wf_csr store_gap (pvc_matrix 3) \<and>
   pid (generate_labels store_gap (pvc_matrix 3)) = [1, 2] \<and>
   train_idx [1, 2] = [1, 2] \<and>
   cols_of_row (store_gap (indptr (pvc_matrix 3))) (store_gap (indices (pvc_matrix 3))) 1 = [13] \<and>
   class_id 13 = Some 2 \<and>
   label_at (labels (generate_labels store_gap (pvc_matrix 3))) 1 = Inr 0 \<and>
   label_at (labels (generate_labels store_gap (pvc_matrix 3))) 2 = Inl IndexError"
  by (simp add: generate_labels_def masked_assign_def selected_rows_def csr_entries_def
      cols_of_row_def store_gap_def pvc_matrix_def c_selected_def upt_rec wf_csr_def
      train_idx_def label_at_def class_id_def)

section \<open>The labels are the matrix's own array\<close>

text \<open>
  Claim C10, as amended. The name \<^verbatim>\<open>labels\<close> is bound to the \<^verbatim>\<open>indices\<close> array of
  \<^verbatim>\<open>pvc\<close>, not to a copy: after the cell, the array at \<open>indices pvc\<close> holds the
  remapped values (11 replaced by 1, 13 by 2), the label tensor is a copy of exactly that
  array, and no other array of the store has changed. So \<^verbatim>\<open>pvc\<close> itself is mutated: when
  it is well formed and has a stored entry in column 11 or 13, the entries it represents
  after the cell are not the entries it represented before; when it has no such entry, the
  store is left as it was.
\<close>

theorem labels_alias_indices:
  "labels_array (generate_labels h pvc) = indices pvc \<and>
   heap (generate_labels h pvc) (indices pvc) =
     map (\<lambda>c. if c = 11 then 1 else if c = 13 then 2 else c) (h (indices pvc)) \<and>
   labels (generate_labels h pvc) = heap (generate_labels h pvc) (indices pvc) \<and>
   (\<forall>a. a \<noteq> indices pvc \<longrightarrow> heap (generate_labels h pvc) a = h a) \<and>
   (wf_csr h pvc \<longrightarrow> 11 \<in> set (h (indices pvc)) \<or> 13 \<in> set (h (indices pvc)) \<longrightarrow>
      set (csr_entries (heap (generate_labels h pvc)) pvc) \<noteq> set (csr_entries h pvc)) \<and>
   (11 \<notin> set (h (indices pvc)) \<and> 13 \<notin> set (h (indices pvc)) \<longrightarrow>
      heap (generate_labels h pvc) = h)"
proof -
  let ?S = "generate_labels h pvc"
  have "set (csr_entries (heap ?S) pvc) \<noteq> set (csr_entries h pvc)"
    if wf: "wf_csr h pvc" and sel: "11 \<in> set (h (indices pvc)) \<or> 13 \<in> set (h (indices pvc))"
  proof
    assume eq: "set (csr_entries (heap ?S) pvc) = set (csr_entries h pvc)"
    from sel obtain c where c: "c \<in> set (h (indices pvc))" "c = 11 \<or> c = 13" by blast
    from c(1) wf_csr_columns[OF wf] have "c \<in> snd ` set (csr_entries h pvc)" by simp
    with eq have "c \<in> snd ` set (csr_entries (heap ?S) pvc)" by simp
    with csr_columns_subset[of "heap ?S" pvc] have "c \<in> set (heap ?S (indices pvc))" by blast
    with c(2) show False by (auto simp: generate_labels_simps(1))
  qed
  moreover have "heap ?S = h"
    if none: "11 \<notin> set (h (indices pvc)) \<and> 13 \<notin> set (h (indices pvc))"
  proof
    fix a
    from none have "map (\<lambda>c. if c = 11 then 1 else if c = 13 then 2 else c) (h (indices pvc))
        = h (indices pvc)"
      by (intro map_idI) auto
    then show "heap ?S a = h a"
      by (cases "a = indices pvc") (simp_all add: generate_labels_simps)
  qed
  ultimately show ?thesis by (simp add: generate_labels_simps)
qed

theorem labels_alias_indices_witness:
  "heap (generate_labels store_one (pvc_matrix 4)) 1 = [2, 5, 0, 1] \<and>
   labels (generate_labels store_one (pvc_matrix 4)) = [2, 5, 0, 1] \<and>
   heap (generate_labels store_one (pvc_matrix 4)) 0 = [0, 1, 2, 3, 4] \<and>
   set (csr_entries (heap (generate_labels store_one (pvc_matrix 4))) (pvc_matrix 4))
     \<noteq> set (csr_entries store_one (pvc_matrix 4))"
proof -
  have wf: "wf_csr store_one (pvc_matrix 4)"
    by (simp add: wf_csr_def store_one_def pvc_matrix_def)
  have sel: "11 \<in> set (store_one (indices (pvc_matrix 4))) \<or> 13 \<in> set (store_one (indices (pvc_matrix 4)))"
    by (simp add: store_one_def pvc_matrix_def)
  from labels_alias_indices[of store_one "pvc_matrix 4"] wf sel
  show ?thesis by (simp add: store_one_def pvc_matrix_def)
qed

text \<open>
  Without a stored entry in column 11 or 13 the last part of the claim fails: a
  well-formed matrix with conferences 0 and 5 only represents after the cell what it
  represented before.
\<close>

theorem labels_alias_indices_counterexample:
  "wf_csr store_kdd (pvc_matrix 2) \<and>
   labels (generate_labels store_kdd (pvc_matrix 2)) = [0, 5] \<and>
   heap (generate_labels store_kdd (pvc_matrix 2)) (indices (pvc_matrix 2))
     = store_kdd (indices (pvc_matrix 2)) \<and>
   csr_entries (heap (generate_labels store_kdd (pvc_matrix 2))) (pvc_matrix 2)
     = csr_entries store_kdd (pvc_matrix 2)"
  by (simp add: generate_labels_def masked_assign_def csr_entries_def cols_of_row_def
      store_kdd_def pvc_matrix_def wf_csr_def upt_rec)

end
